theory Spec2Isabelle
  imports Complex_Main
begin

section \<open>Strings of the chunker (\<^verbatim>\<open>scripts/chunk.ts\<close>)\<close>

text \<open>
  A JavaScript string is a sequence of code units and \<^verbatim>\<open>.length\<close> counts them; the model
  uses \<^typ>\<open>string\<close> (code units below 256) and reads a length as an \<^typ>\<open>int\<close>, because
  the size parameters of the chunker are numbers that are compared with lengths and may be
  zero or negative.
\<close>

definition len :: "string \<Rightarrow> int" where
  "len s = int (length s)"

text \<open>The class \<^verbatim>\<open>\s\<close> of a regular expression, which is also what \<^verbatim>\<open>trim()\<close> strips:
  tab, line feed, vertical tab, form feed, carriage return, space and no-break space.\<close>

definition is_space :: "char \<Rightarrow> bool" where
  "is_space c \<longleftrightarrow> c \<in> set [CHR 0x09, CHR 0x0A, CHR 0x0B, CHR 0x0C, CHR 0x0D, CHR 0x20, CHR 0xA0]"

text \<open>The class \<^verbatim>\<open>[.!?]\<close> of the look-behind in \<^verbatim>\<open>splitIntoSentences\<close>.\<close>

definition is_terminator :: "char \<Rightarrow> bool" where
  "is_terminator c \<longleftrightarrow> c \<in> set [CHR ''.'', CHR ''!'', CHR ''?'']"

definition trim :: "string \<Rightarrow> string" where
  "trim s = rev (dropWhile is_space (rev (dropWhile is_space s)))"

text \<open>\<^verbatim>\<open>xs.join(' ')\<close>\<close>

fun joinSpace :: "string list \<Rightarrow> string" where
  "joinSpace [] = []"
| "joinSpace [x] = x"
| "joinSpace (x # y # ys) = x @ '' '' @ joinSpace (y # ys)"

text \<open>
  \<^verbatim>\<open>text.split(/(?<=[.!?])\s+/)\<close>: the separator is a maximal run of whitespace that directly
  follows a terminator; \<open>cur\<close> is the piece read since the last separator. A string without
  separator gives one piece, the string itself (also when it is empty).
\<close>

function splitAfterTerminator :: "string \<Rightarrow> string \<Rightarrow> string list" where
  "splitAfterTerminator cur [] = [cur]"
| "splitAfterTerminator cur (c # cs) =
     (if is_terminator c \<and> cs \<noteq> [] \<and> is_space (hd cs)
      then (cur @ [c]) # splitAfterTerminator [] (dropWhile is_space cs)
      else splitAfterTerminator (cur @ [c]) cs)"
  by pat_completeness auto
termination
  by (relation "measure (\<lambda>(cur, s). length s)") (auto simp: length_dropWhile_le less_Suc_eq_le)

text \<open>\<^verbatim>\<open>s.split(/\s+/)\<close>: the separator is a maximal run of whitespace.\<close>

function splitWhitespace :: "string \<Rightarrow> string \<Rightarrow> string list" where
  "splitWhitespace cur [] = [cur]"
| "splitWhitespace cur (c # cs) =
     (if is_space c
      then cur # splitWhitespace [] (dropWhile is_space cs)
      else splitWhitespace (cur @ [c]) cs)"
  by pat_completeness auto
termination
  by (relation "measure (\<lambda>(cur, s). length s)") (auto simp: length_dropWhile_le less_Suc_eq_le)

definition splitIntoSentences :: "string \<Rightarrow> string list" where
  "splitIntoSentences text =
     filter (\<lambda>s. length s > 0) (map trim (splitAfterTerminator [] text))"

definition getOverlapText :: "string \<Rightarrow> int \<Rightarrow> string" where
  "getOverlapText previousChunk overlapSize =
     (if previousChunk = [] \<or> overlapSize \<le> 0 then []
      else let words = splitWhitespace [] previousChunk in
        if int (length words) \<le> overlapSize then previousChunk
        else joinSpace (drop (length words - nat overlapSize) words))"

section \<open>The merge pass\<close>

text \<open>
  One round of the loop of \<^verbatim>\<open>mergeSmallChunks\<close>: the state is the array \<open>merged\<close> and
  \<open>currentChunk\<close>.
\<close>

definition mergeStep :: "int \<Rightarrow> string \<Rightarrow> string list \<times> string \<Rightarrow> string list \<times> string" where
  "mergeStep minSize nextChunk st =
     (let (merged, currentChunk) = st;
          combinedLength = len currentChunk + len nextChunk
      in if combinedLength < minSize
         then (merged, currentChunk @ '' '' @ nextChunk)
         else (merged @ [currentChunk], nextChunk))"

definition mergeSmallChunks :: "string list \<Rightarrow> int \<Rightarrow> string list" where
  "mergeSmallChunks chunks minSize =
     (if length chunks = 0 then chunks
      else let (merged, currentChunk) =
                 fold (\<lambda>i. mergeStep minSize (chunks ! i)) [1 ..< length chunks] ([], chunks ! 0)
           in merged @ [currentChunk])"

text \<open>What a loop state \<open>(merged, currentChunk)\<close> gives when the loop ends:
  \<^verbatim>\<open>merged.push(currentChunk)\<close>.\<close>

definition emit :: "string list \<times> string \<Rightarrow> string list" where
  "emit st = fst st @ [snd st]"

section \<open>The chunker\<close>

text \<open>
  The word-level fallback (the inner loop over \<open>words\<close>): the state is the array
  \<open>chunks\<close> and \<open>tempChunk\<close>. The variable \<open>previousChunk\<close> of the source is written and
  never read, so it is not part of the state.
\<close>

definition wordStep :: "int \<Rightarrow> int \<Rightarrow> string \<Rightarrow> string list \<times> string \<Rightarrow> string list \<times> string" where
  "wordStep minSize maxSize word st =
     (let (chunks, tempChunk) = st in
      if len (tempChunk @ '' '' @ word) \<le> maxSize
      then (chunks, (if tempChunk \<noteq> [] then tempChunk @ '' '' else []) @ word)
      else if len tempChunk \<ge> minSize
           then (chunks @ [tempChunk], word)
           else (chunks, (if tempChunk \<noteq> [] then tempChunk @ '' '' else []) @ word))"

text \<open>One round of the loop over the sentences: the state is \<open>chunks\<close> and \<open>currentChunk\<close>.\<close>

definition sentenceStep ::
  "int \<Rightarrow> int \<Rightarrow> int \<Rightarrow> string \<Rightarrow> string list \<times> string \<Rightarrow> string list \<times> string" where
  "sentenceStep targetSize minSize maxSize sentence st =
     (let (chunks, currentChunk) = st;
          potentialChunk = currentChunk @ (if currentChunk \<noteq> [] then '' '' else []) @ sentence;
          (chunks1, currentChunk1) =
            (if len potentialChunk \<le> targetSize then (chunks, potentialChunk)
             else if len currentChunk \<ge> minSize then (chunks @ [currentChunk], sentence)
             else (chunks, potentialChunk))
      in if len currentChunk1 > maxSize
         then (if len currentChunk1 \<ge> minSize
               then (chunks1 @ [currentChunk1], sentence)
               else fold (wordStep minSize maxSize) (splitWhitespace [] currentChunk1) (chunks1, []))
         else (chunks1, currentChunk1))"

text \<open>The flush after the loop; the second case is \<^verbatim>\<open>chunks[chunks.length - 1] += ' ' + currentChunk\<close>.\<close>

definition flush :: "int \<Rightarrow> string list \<times> string \<Rightarrow> string list" where
  "flush minSize st =
     (let (chunks, currentChunk) = st in
      if len currentChunk \<ge> minSize then chunks @ [currentChunk]
      else if length chunks > 0
           then chunks[length chunks - 1 := chunks ! (length chunks - 1) @ '' '' @ currentChunk]
           else chunks @ [currentChunk])"

text \<open>The overlap pass, by index as in the source.\<close>

definition addOverlap :: "string list \<Rightarrow> int \<Rightarrow> string list" where
  "addOverlap chunks overlap =
     map (\<lambda>i. let chunk = chunks ! i in
               if i > 0 \<and> overlap > 0
               then (let overlapText = getOverlapText (chunks ! (i - 1)) overlap in
                     if overlapText \<noteq> [] then overlapText @ '' '' @ chunk else chunk)
               else chunk)
         [0 ..< length chunks]"

definition chunkText :: "string \<Rightarrow> int \<Rightarrow> int \<Rightarrow> int \<Rightarrow> int \<Rightarrow> string list" where
  "chunkText text targetSize overlap minSize maxSize =
     (if len text \<le> targetSize then [text]
      else let sentences = splitIntoSentences text;
               chunks = flush minSize (fold (sentenceStep targetSize minSize maxSize) sentences ([], []));
               chunksWithOverlap = addOverlap chunks overlap
           in mergeSmallChunks chunksWithOverlap minSize)"

section \<open>Source tables (\<^verbatim>\<open>scripts/tables.ts\<close>)\<close>

text \<open>
  A raw row is an object read by field name. The model keeps the fields as strings: a field
  that is absent or null is \<open>None\<close>, and the empty string is falsy, as in the
  \<^verbatim>\<open>a || b || c\<close> chains of the mappers.
\<close>

type_synonym row = "string \<rightharpoonup> string"

record source_document =
  source_table :: string
  source_id :: string
  title :: "string option"
  content :: string

datatype error = NoMapper | FetchError | StoreError

text \<open>\<^verbatim>\<open>row.f1 || row.f2 || ...\<close>: the first field of the list with a truthy value.\<close>

fun firstTruthy :: "row \<Rightarrow> string list \<Rightarrow> string option" where
  "firstTruthy r [] = None"
| "firstTruthy r (f # fs) =
     (case r f of
        Some v \<Rightarrow> (if v \<noteq> [] then Some v else firstTruthy r fs)
      | None \<Rightarrow> firstTruthy r fs)"

text \<open>The registry: for every table the candidate fields of the title and of the content.\<close>

definition TABLE_MAPPERS :: "(string \<times> string list \<times> string list) list" where
  "TABLE_MAPPERS =
     [(''internal_data'', [''title'', ''name''], [''content'', ''description'', ''notes'']),
      (''press_release'', [''title'', ''headline''], [''content'', ''body'', ''text'']),
      (''board_members'', [''name'', ''title''],
         [''bio'', ''background'', ''experience'', ''description'']),
      (''partnerships'', [''name'', ''partner_name'', ''title''],
         [''description'', ''details'', ''overview'']),
      (''financial_reports'', [''title'', ''report_name'', ''period''],
         [''content'', ''summary'', ''analysis'', ''details'']),
      (''company_news'', [''title'', ''headline'', ''news_title''],
         [''content'', ''body'', ''article'', ''summary'']),
      (''product_info'', [''name'', ''product_name'', ''title''],
         [''description'', ''overview'', ''features'', ''details'']),
      (''executive_team'', [''name'', ''title'', ''role''],
         [''bio'', ''background'', ''experience'', ''description'']),
      (''investor_relations'', [''title'', ''topic'', ''subject''],
         [''content'', ''details'', ''information'', ''overview''])]"

definition transformRowToDocument :: "string \<Rightarrow> row \<Rightarrow> error + source_document" where
  "transformRowToDocument tableName r =
     (case map_of TABLE_MAPPERS tableName of
        None \<Rightarrow> Inl NoMapper
      | Some (titleFields, contentFields) \<Rightarrow>
          Inr \<lparr> source_table = tableName,
                source_id = (case firstTruthy r [''id''] of Some v \<Rightarrow> v | None \<Rightarrow> ''unknown''),
                title = firstTruthy r titleFields,
                content = (case firstTruthy r contentFields of Some v \<Rightarrow> v | None \<Rightarrow> []) \<rparr>)"

section \<open>The store, the embedding provider and the statistics\<close>

type_synonym embedding = "real list"

datatype reembed = ReembedNone | ReembedMissing | ReembedAll

record document =
  doc_id :: nat
  doc_title :: "string option"
  doc_content :: string
  content_hash :: string

record chunk =
  chunk_content :: string
  chunk_embedding :: "embedding option"

record indexing_stats =
  documentsProcessed :: nat
  chunksCreated :: nat
  embeddingsWritten :: nat
  errors :: nat

text \<open>What \<^verbatim>\<open>console.error\<close> is called with: the chunk index of a failed embedding, the
  error of a failed row, or the error that ended a table.\<close>

datatype log_event = EmbeddingFailure nat | RowFailure error | TableFailure error

text \<open>
  The collaborators outside the program. Every call to the store or to the provider is one
  tick of \<open>clock\<close>; whether the call made at a tick fails is up to the environment:
  \<open>store_fault\<close> for the store, \<open>provider\<close> for \<^verbatim>\<open>embed\<close> (\<open>None\<close> when it throws),
  \<open>table_rows\<close> for the page of a source table read with a limit and an offset (\<open>None\<close>
  when the read fails). \<open>sha256\<close> is the digest of \<^verbatim>\<open>generateContentHash\<close>.
\<close>

record env =
  sha256 :: "string \<Rightarrow> string"
  provider :: "nat \<Rightarrow> string \<Rightarrow> embedding option"
  store_fault :: "nat \<Rightarrow> bool"
  table_rows :: "nat \<Rightarrow> string \<Rightarrow> int \<Rightarrow> int \<Rightarrow> row list option"

text \<open>
  The state: the two tables of the store (\<open>doc_index\<close> keyed by source table and source id,
  \<open>chunk_index\<close> keyed by document id and chunk index), the statistics of the table being
  processed, and what was sent out: the texts given to the provider, the number of upsert
  requests, and the error log.
\<close>

record world =
  clock :: nat
  doc_index :: "string \<times> string \<rightharpoonup> document"
  chunk_index :: "nat \<times> nat \<rightharpoonup> chunk"
  next_id :: nat
  tableStats :: indexing_stats
  embed_calls :: "string list"
  document_upserts :: nat
  chunk_upserts :: nat
  console_errors :: "log_event list"

definition generateContentHash :: "env \<Rightarrow> string \<Rightarrow> string" where
  "generateContentHash e text = sha256 e text"

text \<open>\<^verbatim>\<open>ragTables.getDocumentHash\<close>: \<^verbatim>\<open>data?.content_hash || null\<close>.\<close>

definition getDocumentHash ::
  "env \<Rightarrow> string \<Rightarrow> string \<Rightarrow> world \<Rightarrow> (error + string option) \<times> world" where
  "getDocumentHash e sourceTable sourceId w =
     (let w1 = w\<lparr>clock := Suc (clock w)\<rparr> in
      if store_fault e (clock w) then (Inl StoreError, w1)
      else (Inr (case doc_index w (sourceTable, sourceId) of
                   None \<Rightarrow> None
                 | Some d \<Rightarrow> if content_hash d \<noteq> [] then Some (content_hash d) else None), w1))"

text \<open>\<^verbatim>\<open>ragTables.upsertDocument\<close>: insert, or update on a conflict on (source table, source id);
  returns the id of the row.\<close>

definition upsertDocument ::
  "env \<Rightarrow> source_document \<Rightarrow> string \<Rightarrow> world \<Rightarrow> (error + nat) \<times> world" where
  "upsertDocument e doc hash w =
     (let w1 = w\<lparr>clock := Suc (clock w), document_upserts := Suc (document_upserts w)\<rparr>;
          key = (source_table doc, source_id doc)
      in if store_fault e (clock w) then (Inl StoreError, w1)
         else (case doc_index w key of
                 Some d \<Rightarrow>
                   (Inr (doc_id d),
                    w1\<lparr>doc_index := (doc_index w)(key \<mapsto>
                          d\<lparr>doc_title := title doc, doc_content := content doc,
                            content_hash := hash\<rparr>)\<rparr>)
               | None \<Rightarrow>
                   (Inr (next_id w),
                    w1\<lparr>doc_index := (doc_index w)(key \<mapsto>
                          \<lparr>doc_id = next_id w, doc_title = title doc,
                           doc_content = content doc, content_hash = hash\<rparr>),
                       next_id := Suc (next_id w)\<rparr>)))"

text \<open>\<^verbatim>\<open>ragTables.getChunk\<close>\<close>

definition getChunk :: "env \<Rightarrow> nat \<Rightarrow> nat \<Rightarrow> world \<Rightarrow> (error + chunk option) \<times> world" where
  "getChunk e documentId chunkIndex w =
     (let w1 = w\<lparr>clock := Suc (clock w)\<rparr> in
      if store_fault e (clock w) then (Inl StoreError, w1)
      else (Inr (chunk_index w (documentId, chunkIndex)), w1))"

text \<open>\<^verbatim>\<open>ragTables.upsertChunk\<close>: insert, or update on a conflict on (document id, chunk index).\<close>

definition upsertChunk ::
  "env \<Rightarrow> nat \<Rightarrow> nat \<Rightarrow> string \<Rightarrow> embedding option \<Rightarrow> world \<Rightarrow> (error + unit) \<times> world" where
  "upsertChunk e documentId chunkIndex text emb w =
     (let w1 = w\<lparr>clock := Suc (clock w), chunk_upserts := Suc (chunk_upserts w)\<rparr> in
      if store_fault e (clock w) then (Inl StoreError, w1)
      else (Inr (),
            w1\<lparr>chunk_index := (chunk_index w)((documentId, chunkIndex) \<mapsto>
                  \<lparr>chunk_content = text, chunk_embedding = emb\<rparr>)\<rparr>))"

text \<open>\<^verbatim>\<open>embed\<close> of \<^verbatim>\<open>lib/openai.ts\<close>: the vector, or \<open>None\<close> when it throws.\<close>

definition embed :: "env \<Rightarrow> string \<Rightarrow> world \<Rightarrow> embedding option \<times> world" where
  "embed e text w =
     (provider e (clock w) text,
      w\<lparr>clock := Suc (clock w), embed_calls := embed_calls w @ [text]\<rparr>)"

text \<open>\<^verbatim>\<open>fetchTableRows\<close> of \<^verbatim>\<open>scripts/tables.ts\<close>: no mapper, a failed read, or the page.\<close>

definition fetchTableRows ::
  "env \<Rightarrow> string \<Rightarrow> int \<Rightarrow> int \<Rightarrow> world \<Rightarrow> (error + row list) \<times> world" where
  "fetchTableRows e tableName limit offset w =
     (case map_of TABLE_MAPPERS tableName of
        None \<Rightarrow> (Inl NoMapper, w)
      | Some mapper \<Rightarrow>
          (case table_rows e (clock w) tableName limit offset of
             None \<Rightarrow> (Inl FetchError, w\<lparr>clock := Suc (clock w)\<rparr>)
           | Some rows \<Rightarrow> (Inr rows, w\<lparr>clock := Suc (clock w)\<rparr>)))"

section \<open>The indexer (\<^verbatim>\<open>scripts/build-index.ts\<close>)\<close>

text \<open>\<^verbatim>\<open>existingChunk?.embedding\<close>: absent when there is no chunk or its embedding is null.\<close>

definition storedEmbedding :: "chunk option \<Rightarrow> embedding option" where
  "storedEmbedding existingChunk =
     (case existingChunk of None \<Rightarrow> None | Some c \<Rightarrow> chunk_embedding c)"

text \<open>
  The embedding of one chunk (the \<^verbatim>\<open>if\<close> after \<^verbatim>\<open>let embedding = null\<close> in the loop of
  \<^verbatim>\<open>processRow\<close>): the provider is called, or the stored vector is taken over. A failure of
  the provider is caught here: it is logged and the embedding stays null.
\<close>

definition resolveEmbedding ::
  "env \<Rightarrow> reembed \<Rightarrow> nat \<Rightarrow> string \<Rightarrow> chunk option \<Rightarrow> world \<Rightarrow> embedding option \<times> world" where
  "resolveEmbedding e mode chunkIndex chunkContent existingChunk w =
     (if mode = ReembedAll \<or> mode = ReembedMissing \<or> storedEmbedding existingChunk = None
      then (case embed e chunkContent w of
              (Some v, w1) \<Rightarrow>
                (Some v,
                 w1\<lparr>tableStats := (tableStats w1)
                      \<lparr>embeddingsWritten := Suc (embeddingsWritten (tableStats w1))\<rparr>\<rparr>)
            | (None, w1) \<Rightarrow>
                (None, w1\<lparr>console_errors := console_errors w1 @ [EmbeddingFailure chunkIndex]\<rparr>))
      else if storedEmbedding existingChunk \<noteq> None
           then (storedEmbedding existingChunk, w)
           else (None, w))"

text \<open>One round of the loop over the chunks of a document in \<^verbatim>\<open>processRow\<close>: read the
  stored chunk, settle the embedding, upsert the chunk, count it. An error of the store is
  not caught here.\<close>

definition processChunk ::
  "env \<Rightarrow> reembed \<Rightarrow> nat \<Rightarrow> nat \<Rightarrow> string \<Rightarrow> world \<Rightarrow> (error + unit) \<times> world" where
  "processChunk e mode documentId chunkIndex chunkContent w =
     (case getChunk e documentId chunkIndex w of
        (Inl err, w1) \<Rightarrow> (Inl err, w1)
      | (Inr existingChunk, w1) \<Rightarrow>
          (case resolveEmbedding e mode chunkIndex chunkContent existingChunk w1 of
             (emb, w2) \<Rightarrow>
               (case upsertChunk e documentId chunkIndex chunkContent emb w2 of
                  (Inl err, w3) \<Rightarrow> (Inl err, w3)
                | (Inr _, w3) \<Rightarrow>
                    (Inr (),
                     w3\<lparr>tableStats := (tableStats w3)
                          \<lparr>chunksCreated := Suc (chunksCreated (tableStats w3))\<rparr>\<rparr>))))"

text \<open>The loop itself, from \<open>chunkIndex\<close> on; \<open>chunks\<close> are the chunks not yet processed.\<close>

fun processChunks ::
  "env \<Rightarrow> reembed \<Rightarrow> nat \<Rightarrow> nat \<Rightarrow> string list \<Rightarrow> world \<Rightarrow> (error + unit) \<times> world" where
  "processChunks e mode documentId chunkIndex [] w = (Inr (), w)"
| "processChunks e mode documentId chunkIndex (chunkContent # chunks) w =
     (case processChunk e mode documentId chunkIndex chunkContent w of
        (Inl err, w1) \<Rightarrow> (Inl err, w1)
      | (Inr _, w1) \<Rightarrow> processChunks e mode documentId (Suc chunkIndex) chunks w1)"

definition processRow ::
  "env \<Rightarrow> reembed \<Rightarrow> string \<Rightarrow> row \<Rightarrow> world \<Rightarrow> (error + unit) \<times> world" where
  "processRow e mode tableName r w =
     (case transformRowToDocument tableName r of
        Inl err \<Rightarrow> (Inl err, w)
      | Inr sourceDoc \<Rightarrow>
          if content sourceDoc = [] \<or> length (trim (content sourceDoc)) = 0 then (Inr (), w)
          else
            (let contentHash = generateContentHash e (content sourceDoc) in
             case getDocumentHash e (source_table sourceDoc) (source_id sourceDoc) w of
               (Inl err, w1) \<Rightarrow> (Inl err, w1)
             | (Inr existingHash, w1) \<Rightarrow>
                 if existingHash = Some contentHash \<and> mode = ReembedNone then (Inr (), w1)
                 else
                   (case upsertDocument e sourceDoc contentHash w1 of
                      (Inl err, w2) \<Rightarrow> (Inl err, w2)
                    | (Inr documentId, w2) \<Rightarrow>
                        processChunks e mode documentId 0
                          (chunkText (content sourceDoc) 1200 200 800 1500)
                          (w2\<lparr>tableStats := (tableStats w2)
                               \<lparr>documentsProcessed :=
                                  Suc (documentsProcessed (tableStats w2))\<rparr>\<rparr>))))"

text \<open>One round of the loop over the rows of a batch in \<^verbatim>\<open>processTable\<close>: the
  \<^verbatim>\<open>try\<close>/\<^verbatim>\<open>catch\<close> around \<^verbatim>\<open>processRow\<close>.\<close>

definition rowStep :: "env \<Rightarrow> reembed \<Rightarrow> string \<Rightarrow> row \<Rightarrow> world \<Rightarrow> world" where
  "rowStep e mode tableName r w =
     (case processRow e mode tableName r w of
        (Inr _, w1) \<Rightarrow> w1
      | (Inl err, w1) \<Rightarrow>
          w1\<lparr>console_errors := console_errors w1 @ [RowFailure err],
             tableStats := (tableStats w1)\<lparr>errors := Suc (errors (tableStats w1))\<rparr>\<rparr>)"

definition processBatch :: "env \<Rightarrow> reembed \<Rightarrow> string \<Rightarrow> row list \<Rightarrow> world \<Rightarrow> world" where
  "processBatch e mode tableName rows w = fold (rowStep e mode tableName) rows w"

text \<open>
  The loop over the pages of a table in \<^verbatim>\<open>processTable\<close>. It ends with a page that is
  empty or shorter than \<open>limit\<close>, or with an error of \<^verbatim>\<open>fetchTableRows\<close>; a source that
  returns full pages for ever keeps it running, so the model counts the rounds and gives
  \<open>None\<close> when they are used up before the loop ends.
\<close>

fun pageLoop ::
  "nat \<Rightarrow> env \<Rightarrow> reembed \<Rightarrow> int \<Rightarrow> string \<Rightarrow> int \<Rightarrow> world \<Rightarrow> ((error + unit) \<times> world) option"
  where
  "pageLoop 0 e mode limit tableName offset w = None"
| "pageLoop (Suc rounds) e mode limit tableName offset w =
     (case fetchTableRows e tableName limit offset w of
        (Inl err, w1) \<Rightarrow> Some (Inl err, w1)
      | (Inr rows, w1) \<Rightarrow>
          if length rows = 0 then Some (Inr (), w1)
          else (let w2 = processBatch e mode tableName rows w1 in
                if int (length rows) < limit then Some (Inr (), w2)
                else pageLoop rounds e mode limit tableName (offset + int (length rows)) w2))"

text \<open>\<^verbatim>\<open>processTable\<close>: fresh statistics, the loop over the pages, and the \<^verbatim>\<open>catch\<close> around
  it, which counts the error that ended the loop.\<close>

definition processTable ::
  "nat \<Rightarrow> env \<Rightarrow> reembed \<Rightarrow> int \<Rightarrow> int \<Rightarrow> string \<Rightarrow> world \<Rightarrow> world option" where
  "processTable rounds e mode limit offset tableName w =
     (case pageLoop rounds e mode limit tableName offset
             (w\<lparr>tableStats := \<lparr>documentsProcessed = 0, chunksCreated = 0,
                               embeddingsWritten = 0, errors = 0\<rparr>\<rparr>) of
        None \<Rightarrow> None
      | Some (Inr u, w1) \<Rightarrow> Some w1
      | Some (Inl err, w1) \<Rightarrow>
          Some (w1\<lparr>console_errors := console_errors w1 @ [TableFailure err],
                   tableStats := (tableStats w1)\<lparr>errors := Suc (errors (tableStats w1))\<rparr>\<rparr>))"

section \<open>Sample runs\<close>

text \<open>An empty store and zeroed statistics.\<close>

definition emptyWorld :: world where
  "emptyWorld =
     \<lparr> clock = 0, doc_index = Map.empty, chunk_index = Map.empty, next_id = 0,
       tableStats = \<lparr>documentsProcessed = 0, chunksCreated = 0, embeddingsWritten = 0,
                     errors = 0\<rparr>,
       embed_calls = [], document_upserts = 0, chunk_upserts = 0, console_errors = [] \<rparr>"

definition sampleRow :: row where
  "sampleRow = [''id'' \<mapsto> ''7'', ''body'' \<mapsto> ''Hello world.'']"

text \<open>An environment whose provider throws at the ticks in \<open>providerDown\<close> and whose store
  fails at the ticks in \<open>storeDown\<close>; the digest is a stand-in that is never empty; every
  source table has two rows, both \<open>sampleRow\<close>.\<close>

definition sampleEnv :: "nat list \<Rightarrow> nat list \<Rightarrow> env" where
  "sampleEnv providerDown storeDown =
     \<lparr> sha256 = (\<lambda>text. CHR ''#'' # text),
       provider = (\<lambda>k text. if k \<in> set providerDown then None else Some [1]),
       store_fault = (\<lambda>k. k \<in> set storeDown),
       table_rows = (\<lambda>k tableName limit offset.
          Some (if offset = 0 then [sampleRow, sampleRow] else [])) \<rparr>"

text \<open>The document that \<open>sampleRow\<close> is transformed to as a press release, and the state after
  a first run over that row, with mode \<open>all\<close>, from an empty store.\<close>

definition sampleDoc :: source_document where
  "sampleDoc = \<lparr>source_table = ''press_release'', source_id = ''7'', title = None,
                 content = ''Hello world.''\<rparr>"

definition sampleIndexed :: world where
  "sampleIndexed =
     snd (processRow (sampleEnv [] []) ReembedAll ''press_release'' sampleRow emptyWorld)"

text \<open>A sentence of 1000 characters, a text of five such sentences, a row with that text,
  and the state after a run over that row in which the provider throws at tick 9, which is
  the call for the third chunk.\<close>

definition longSentence :: string where
  "longSentence = replicate 999 (CHR ''a'') @ ''.''"

definition fiveSentences :: string where
  "fiveSentences =
     longSentence @ '' '' @ longSentence @ '' '' @ longSentence @ '' '' @ longSentence @
     '' '' @ longSentence"

text \<open>A sentence of 1600 characters, and a text of two sentences in which it follows a
  sentence of 1000 characters.\<close>

definition overlongSentence :: string where
  "overlongSentence = replicate 1599 (CHR ''b'') @ ''.''"

definition twoSentences :: string where
  "twoSentences = longSentence @ '' '' @ overlongSentence"

definition longRow :: row where
  "longRow = [''id'' \<mapsto> ''7'', ''body'' \<mapsto> fiveSentences]"

definition longRun :: world where
  "longRun = snd (processRow (sampleEnv [9] []) ReembedNone ''press_release'' longRow emptyWorld)"

definition longDoc :: source_document where
  "longDoc = \<lparr>source_table = ''press_release'', source_id = ''7'', title = None,
               content = fiveSentences\<rparr>"

section \<open>Properties of the merge pass\<close>

lemma map_nth_upt_drop: "map ((!) xs) [k ..< length xs] = drop k xs"
proof -
  have "drop k (map ((!) xs) [0 ..< length xs]) = map ((!) xs) [k ..< length xs]"
    by (simp add: drop_map)
  then show ?thesis by (simp add: map_nth)
qed

lemma fold_nth_upt: "fold (\<lambda>i. f (xs ! i)) [k ..< length xs] s = fold f (drop k xs) s"
proof -
  have "fold (\<lambda>i. f (xs ! i)) [k ..< length xs] s = fold f (map ((!) xs) [k ..< length xs]) s"
    by (simp add: fold_map comp_def)
  then show ?thesis by (simp add: map_nth_upt_drop)
qed

lemma mergeSmallChunks_Nil: "mergeSmallChunks [] m = []"
  by (simp add: mergeSmallChunks_def)

lemma mergeSmallChunks_Cons:
  "mergeSmallChunks (c # cs) m = emit (fold (mergeStep m) cs ([], c))"
proof -
  have "fold (\<lambda>i. mergeStep m ((c # cs) ! i)) [1 ..< length (c # cs)] ([], c) =
        fold (mergeStep m) (drop 1 (c # cs)) ([], c)"
    by (rule fold_nth_upt)
  then show ?thesis
    by (simp add: mergeSmallChunks_def emit_def split_def Let_def del: upt_Suc)
qed

text \<open>What was pushed to \<open>merged\<close> before stays in front of what the rest of the loop emits.\<close>

lemma emit_fold_mergeStep:
  "emit (fold (mergeStep m) cs (merged, cur)) = merged @ emit (fold (mergeStep m) cs ([], cur))"
proof (induction cs arbitrary: merged cur)
  case Nil
  show ?case by (simp add: emit_def)
next
  case (Cons n cs)
  show ?case
  proof (cases "len cur + len n < m")
    case True
    then show ?thesis using Cons.IH [of merged "cur @ '' '' @ n"]
      by (simp add: mergeStep_def)
  next
    case False
    then show ?thesis
      using Cons.IH [of "merged @ [cur]" n] Cons.IH [of "[cur]" n]
      by (simp add: mergeStep_def)
  qed
qed

lemma mergeSmallChunks_single: "mergeSmallChunks [c] m = [c]"
  by (simp add: mergeSmallChunks_Cons emit_def)

lemma mergeSmallChunks_merge:
  "len c + len n < m \<Longrightarrow>
   mergeSmallChunks (c # n # cs) m = mergeSmallChunks ((c @ '' '' @ n) # cs) m"
  by (simp add: mergeSmallChunks_Cons mergeStep_def)

lemma mergeSmallChunks_emit:
  "\<not> len c + len n < m \<Longrightarrow> mergeSmallChunks (c # n # cs) m = c # mergeSmallChunks (n # cs) m"
  using emit_fold_mergeStep [of m cs "[c]" n]
  by (simp add: mergeSmallChunks_Cons mergeStep_def)

lemma mergeSmallChunks_Cons_neq_Nil: "mergeSmallChunks (c # cs) m \<noteq> []"
  by (simp add: mergeSmallChunks_Cons emit_def)

text \<open>
  C5. The merge pass walks the chunks from left to right with an accumulated chunk \<open>c\<close>:
  it joins \<open>c\<close> and the next chunk \<open>n\<close> with a space exactly when the sum of their lengths
  is strictly less than \<open>minSize\<close>; otherwise \<open>c\<close> is emitted as it is and the walk goes on
  from \<open>n\<close>; the chunk accumulated when the input ends is emitted, so the output of a
  non-empty input is never empty.
\<close>

theorem mergeSmallChunks_walk:
  "mergeSmallChunks [c] minSize = [c] \<and>
   mergeSmallChunks (c # n # cs) minSize =
     (if len c + len n < minSize
      then mergeSmallChunks ((c @ '' '' @ n) # cs) minSize
      else c # mergeSmallChunks (n # cs) minSize) \<and>
   mergeSmallChunks (c # cs) minSize \<noteq> []"
  by (simp add: mergeSmallChunks_single mergeSmallChunks_merge mergeSmallChunks_emit
      mergeSmallChunks_Cons_neq_Nil)

lemma joinSpace_Cons: "xs \<noteq> [] \<Longrightarrow> joinSpace (x # xs) = x @ '' '' @ joinSpace xs"
  by (cases xs) simp_all

lemma joinSpace_merge_Cons: "joinSpace (mergeSmallChunks (c # cs) m) = joinSpace (c # cs)"
proof (induction cs arbitrary: c)
  case Nil
  show ?case by (simp add: mergeSmallChunks_single)
next
  case (Cons n cs)
  show ?case
  proof (cases "len c + len n < m")
    case True
    have "joinSpace ((c @ '' '' @ n) # cs) = joinSpace (c # n # cs)"
      by (cases cs) simp_all
    with True Cons.IH [of "c @ '' '' @ n"] show ?thesis
      by (simp add: mergeSmallChunks_merge)
  next
    case False
    then show ?thesis using Cons.IH [of n]
      by (simp add: mergeSmallChunks_emit joinSpace_Cons mergeSmallChunks_Cons_neq_Nil)
  qed
qed

text \<open>
  C10. Joining the output of the merge pass with single spaces gives the same string as
  joining its input with single spaces, for every list of chunks (the empty one too) and
  every \<open>minSize\<close>: the pass moves chunk boundaries and nothing else.
\<close>

theorem mergeSmallChunks_preserves_join:
  "joinSpace (mergeSmallChunks chunks minSize) = joinSpace chunks"
  by (cases chunks) (simp_all add: mergeSmallChunks_Nil joinSpace_merge_Cons)

section \<open>Properties of the chunker\<close>

lemma length_addOverlap: "length (addOverlap chunks overlap) = length chunks"
  by (simp add: addOverlap_def)

lemma flush_neq_Nil: "flush m st \<noteq> []"
  by (cases st) (auto simp: flush_def Let_def)

lemma chunkText_empty: "chunkText [] targetSize overlap minSize maxSize = [[]]"
proof (cases "len [] \<le> targetSize")
  case True
  then show ?thesis by (simp add: chunkText_def)
next
  case False
  have s: "splitIntoSentences [] = []"
    by (simp add: splitIntoSentences_def trim_def)
  have f: "flush minSize ([], []) = [[]]"
    by (simp add: flush_def)
  have o: "addOverlap [[]] overlap = [[]]"
    by (simp add: addOverlap_def)
  have m: "mergeSmallChunks [[]] minSize = [[]]"
    by (simp add: mergeSmallChunks_def)
  show ?thesis using False by (simp add: chunkText_def s f o m)
qed

text \<open>
  C7. A text whose length is at most \<open>targetSize\<close> is returned as the single chunk
  \<open>[text]\<close>; the empty text gives one chunk, the empty string, whatever the parameters are.
\<close>

theorem chunkText_short:
  "(len text \<le> targetSize \<longrightarrow> chunkText text targetSize overlap minSize maxSize = [text]) \<and>
   chunkText [] targetSize overlap minSize maxSize = [[]]"
proof (intro conjI impI)
  assume "len text \<le> targetSize"
  then show "chunkText text targetSize overlap minSize maxSize = [text]"
    by (simp add: chunkText_def)
next
  show "chunkText [] targetSize overlap minSize maxSize = [[]]"
    by (rule chunkText_empty)
qed

theorem chunkText_short_witness:
  "len ''Hi.'' \<le> 1200 \<and> chunkText ''Hi.'' 1200 200 800 1500 = [''Hi.''] \<and>
   chunkText [] 1200 200 800 1500 = [[]]"
  using chunkText_short [of "''Hi.''" 1200 200 800 1500] by (simp add: len_def)

text \<open>
  C9. \<open>chunkText\<close> returns at least one chunk, for every text and all parameters.
\<close>

theorem chunkText_never_empty: "chunkText text targetSize overlap minSize maxSize \<noteq> []"
proof (cases "len text \<le> targetSize")
  case True
  then show ?thesis by (simp add: chunkText_def)
next
  case False
  define chunks where
    "chunks = flush minSize
       (fold (sentenceStep targetSize minSize maxSize) (splitIntoSentences text) ([], []))"
  have "length (addOverlap chunks overlap) \<noteq> 0"
    using flush_neq_Nil [of minSize] unfolding chunks_def by (simp add: length_addOverlap)
  then obtain c cs where "addOverlap chunks overlap = c # cs"
    by (cases "addOverlap chunks overlap") auto
  then show ?thesis using False
    by (simp add: chunkText_def Let_def chunks_def mergeSmallChunks_Cons_neq_Nil)
qed

lemma flush_cases:
  "flush m (chunks, cur) =
     (if len cur \<ge> m then chunks @ [cur]
      else if chunks \<noteq> [] then butlast chunks @ [last chunks @ '' '' @ cur]
      else [cur])"
proof (cases "chunks = []")
  case True
  then show ?thesis by (simp add: flush_def)
next
  case False
  then obtain ys y where "chunks = ys @ [y]" by (metis rev_exhaust)
  then show ?thesis by (simp add: flush_def nth_append)
qed

text \<open>
  C6. For a text longer than \<open>targetSize\<close>, let \<open>chunks\<close> be the chunks emitted and \<open>cur\<close>
  the buffer left when all sentences are consumed. The buffer is flushed so: it becomes a
  chunk of its own if its length is at least \<open>minSize\<close>; otherwise, if a chunk was emitted
  before, it is appended to the last emitted chunk after a space; otherwise it is emitted as
  it is. The overlap pass and the merge pass run on the result.
\<close>

theorem chunkText_flush:
  assumes "\<not> len text \<le> targetSize"
    and "fold (sentenceStep targetSize minSize maxSize) (splitIntoSentences text) ([], []) =
         (chunks, cur)"
  shows "chunkText text targetSize overlap minSize maxSize =
     mergeSmallChunks
       (addOverlap
          (if len cur \<ge> minSize then chunks @ [cur]
           else if chunks \<noteq> [] then butlast chunks @ [last chunks @ '' '' @ cur]
           else [cur])
          overlap)
       minSize"
  using assms by (simp add: chunkText_def Let_def flush_cases)

theorem chunkText_flush_witness:
  "\<not> len ''aaaaaa. bbbbbb. cc.'' \<le> 8 \<and>
   fold (sentenceStep 8 6 12) (splitIntoSentences ''aaaaaa. bbbbbb. cc.'') ([], []) =
     ([''aaaaaa.'', ''bbbbbb.''], ''cc.'') \<and>
   chunkText ''aaaaaa. bbbbbb. cc.'' 8 0 6 12 = [''aaaaaa.'', ''bbbbbb. cc.'']"
proof -
  have h1: "\<not> len ''aaaaaa. bbbbbb. cc.'' \<le> 8"
    by (simp add: len_def)
  have h2: "fold (sentenceStep 8 6 12) (splitIntoSentences ''aaaaaa. bbbbbb. cc.'') ([], []) =
     ([''aaaaaa.'', ''bbbbbb.''], ''cc.'')"
    by code_simp
  have "chunkText ''aaaaaa. bbbbbb. cc.'' 8 0 6 12 =
     mergeSmallChunks
       (addOverlap
          (if len ''cc.'' \<ge> 6 then [''aaaaaa.'', ''bbbbbb.''] @ [''cc.'']
           else if [''aaaaaa.'', ''bbbbbb.''] \<noteq> []
                then butlast [''aaaaaa.'', ''bbbbbb.''] @
                       [last [''aaaaaa.'', ''bbbbbb.''] @ '' '' @ ''cc.'']
                else [''cc.''])
          0)
       6"
    by (rule chunkText_flush [OF h1 h2])
  also have "\<dots> = [''aaaaaa.'', ''bbbbbb. cc.'']"
    by code_simp
  finally show ?thesis using h1 h2 by simp
qed

section \<open>Chunking two sample texts with the parameters of the indexer\<close>

text \<open>The texts are too long to be evaluated character by character; their sentences are
  split and packed by the lemmas below.\<close>

lemma splitAfterTerminator_word:
  "\<forall>c\<in>set u. \<not> is_terminator c \<Longrightarrow>
   splitAfterTerminator cur (u @ rest) = splitAfterTerminator (cur @ u) rest"
  by (induction u arbitrary: cur) simp_all

lemma splitWhitespace_word:
  "\<forall>c\<in>set u. \<not> is_space c \<Longrightarrow> splitWhitespace cur u = [cur @ u]"
  by (induction u arbitrary: cur) simp_all

lemma trim_id: "s \<noteq> [] \<Longrightarrow> \<not> is_space (hd s) \<Longrightarrow> \<not> is_space (last s) \<Longrightarrow> trim s = s"
proof -
  assume a: "s \<noteq> []" "\<not> is_space (hd s)" "\<not> is_space (last s)"
  then have "dropWhile is_space s = s" by (cases s) simp_all
  moreover have "dropWhile is_space (rev s) = rev s"
    using a by (cases "rev s") (simp_all add: hd_rev [symmetric])
  ultimately show ?thesis by (simp add: trim_def)
qed

lemma splitAfterTerminator_plain_last:
  assumes "\<forall>c\<in>set u. \<not> is_terminator c"
  shows "splitAfterTerminator [] (u @ ''.'') = [u @ ''.'']"
proof -
  have "splitAfterTerminator [] (u @ ''.'') = splitAfterTerminator ([] @ u) ''.''"
    using assms by (rule splitAfterTerminator_word)
  then show ?thesis by simp
qed

lemma splitAfterTerminator_plain_more:
  assumes "\<forall>c\<in>set u. \<not> is_terminator c" and "v \<noteq> []" and "\<not> is_space (hd v)"
  shows "splitAfterTerminator [] (u @ CHR ''.'' # CHR '' '' # v) =
         (u @ ''.'') # splitAfterTerminator [] v"
proof -
  have d: "dropWhile is_space v = v"
    using assms(2,3) by (cases v) simp_all
  have "splitAfterTerminator [] (u @ (CHR ''.'' # CHR '' '' # v)) =
        splitAfterTerminator ([] @ u) (CHR ''.'' # CHR '' '' # v)"
    using assms(1) by (rule splitAfterTerminator_word)
  also have "\<dots> = (u @ ''.'') # splitAfterTerminator [] v"
    using d by (simp add: is_terminator_def is_space_def)
  finally show ?thesis .
qed

lemma longSentence_Cons: "longSentence = CHR ''a'' # replicate 998 (CHR ''a'') @ ''.''"
proof -
  have "(999::nat) = Suc 998" by simp
  then show ?thesis unfolding longSentence_def by (simp only: replicate_Suc append_Cons)
qed

lemma length_longSentence: "length longSentence = 1000"
  by (simp add: longSentence_def)

lemma longSentence_neq_Nil: "longSentence \<noteq> []"
  by (simp add: longSentence_def)

lemma hd_longSentence: "hd longSentence = CHR ''a''"
  by (simp add: longSentence_Cons)

lemma last_longSentence: "last longSentence = CHR ''.''"
  by (simp add: longSentence_def)

lemma trim_longSentence: "trim longSentence = longSentence"
  by (rule trim_id) (simp_all add: longSentence_neq_Nil hd_longSentence last_longSentence is_space_def)

lemma splitAfterTerminator_longSentence_last:
  "splitAfterTerminator [] longSentence = [longSentence]"
  unfolding longSentence_def
  by (rule splitAfterTerminator_plain_last) (simp add: is_terminator_def)

lemma splitAfterTerminator_longSentence_more:
  assumes "v \<noteq> []" and "\<not> is_space (hd v)"
  shows "splitAfterTerminator [] (longSentence @ CHR '' '' # v) =
         longSentence # splitAfterTerminator [] v"
proof -
  have "\<forall>c\<in>set (replicate 999 (CHR ''a'')). \<not> is_terminator c"
    by (simp add: is_terminator_def)
  from splitAfterTerminator_plain_more [OF this assms] show ?thesis
    by (simp add: longSentence_def)
qed

lemma hd_longSentence_append: "hd (longSentence @ v) = CHR ''a''"
  by (simp add: longSentence_Cons)

lemma splitIntoSentences_fiveSentences:
  "splitIntoSentences fiveSentences =
     [longSentence, longSentence, longSentence, longSentence, longSentence]"
proof -
  have more: "splitAfterTerminator [] (longSentence @ CHR '' '' # longSentence @ v) =
         longSentence # splitAfterTerminator [] (longSentence @ v)" for v
    by (rule splitAfterTerminator_longSentence_more)
      (simp_all add: longSentence_neq_Nil hd_longSentence_append is_space_def)
  have "splitAfterTerminator [] fiveSentences =
     [longSentence, longSentence, longSentence, longSentence, longSentence]"
    using more [of "[]"]
    by (simp add: fiveSentences_def more splitAfterTerminator_longSentence_last)
  then show ?thesis
    by (simp add: splitIntoSentences_def trim_longSentence longSentence_neq_Nil)
qed

lemma len_longSentence: "len longSentence = 1000"
  by (simp add: len_def length_longSentence)

lemma len_two: "len (longSentence @ CHR '' '' # longSentence) = 2001"
  by (simp add: len_def length_longSentence)

lemma fold_sentenceStep_five:
  "fold (sentenceStep 1200 800 1500)
     [longSentence, longSentence, longSentence, longSentence, longSentence] ([], []) =
   ([longSentence, longSentence, longSentence, longSentence], longSentence)"
  by (simp add: sentenceStep_def len_longSentence len_two longSentence_neq_Nil)

lemma getOverlapText_longSentence: "getOverlapText longSentence 200 = longSentence"
proof -
  have "splitWhitespace [] longSentence = [[] @ longSentence]"
    by (rule splitWhitespace_word) (simp add: longSentence_def is_space_def)
  then show ?thesis
    by (simp add: getOverlapText_def longSentence_neq_Nil)
qed

lemma upt_five: "[0 ..< 5] = [0, 1, 2, 3, 4]"
  by code_simp

lemma chunkText_fiveSentences:
  "chunkText fiveSentences 1200 200 800 1500 =
     [longSentence, longSentence @ '' '' @ longSentence, longSentence @ '' '' @ longSentence,
      longSentence @ '' '' @ longSentence, longSentence @ '' '' @ longSentence]"
proof -
  have l: "\<not> len fiveSentences \<le> 1200"
    by (simp add: len_def fiveSentences_def length_longSentence)
  have f: "flush 800 ([longSentence, longSentence, longSentence, longSentence], longSentence) =
    [longSentence, longSentence, longSentence, longSentence, longSentence]"
    by (simp add: flush_def len_longSentence)
  have o: "addOverlap [longSentence, longSentence, longSentence, longSentence, longSentence] 200 =
     [longSentence, longSentence @ '' '' @ longSentence, longSentence @ '' '' @ longSentence,
      longSentence @ '' '' @ longSentence, longSentence @ '' '' @ longSentence]"
    by (simp add: addOverlap_def upt_five getOverlapText_longSentence longSentence_neq_Nil)
  have m: "mergeSmallChunks
     [longSentence, longSentence @ '' '' @ longSentence, longSentence @ '' '' @ longSentence,
      longSentence @ '' '' @ longSentence, longSentence @ '' '' @ longSentence] 800 =
     [longSentence, longSentence @ '' '' @ longSentence, longSentence @ '' '' @ longSentence,
      longSentence @ '' '' @ longSentence, longSentence @ '' '' @ longSentence]"
    by (simp add: mergeSmallChunks_emit mergeSmallChunks_single len_longSentence len_two)
  show ?thesis
    using l
    by (simp only: chunkText_def Let_def if_False splitIntoSentences_fiveSentences
        fold_sentenceStep_five f o m)
qed

lemma overlongSentence_Cons: "overlongSentence = CHR ''b'' # replicate 1598 (CHR ''b'') @ ''.''"
proof -
  have "(1599::nat) = Suc 1598" by simp
  then show ?thesis unfolding overlongSentence_def by (simp only: replicate_Suc append_Cons)
qed

lemma length_overlongSentence: "length overlongSentence = 1600"
  by (simp add: overlongSentence_def)

lemma overlongSentence_neq_Nil: "overlongSentence \<noteq> []"
  by (simp add: overlongSentence_def)

lemma trim_overlongSentence: "trim overlongSentence = overlongSentence"
proof (rule trim_id)
  show "overlongSentence \<noteq> []" by (rule overlongSentence_neq_Nil)
  show "\<not> is_space (hd overlongSentence)" by (simp add: overlongSentence_Cons is_space_def)
  show "\<not> is_space (last overlongSentence)" by (simp add: overlongSentence_def is_space_def)
qed

lemma splitIntoSentences_twoSentences:
  "splitIntoSentences twoSentences = [longSentence, overlongSentence]"
proof -
  have "splitAfterTerminator [] (longSentence @ CHR '' '' # overlongSentence) =
        longSentence # splitAfterTerminator [] overlongSentence"
    by (rule splitAfterTerminator_longSentence_more)
      (simp_all add: overlongSentence_neq_Nil overlongSentence_Cons is_space_def)
  moreover have "splitAfterTerminator [] overlongSentence = [overlongSentence]"
    unfolding overlongSentence_def
    by (rule splitAfterTerminator_plain_last) (simp add: is_terminator_def)
  ultimately have "splitAfterTerminator [] twoSentences = [longSentence, overlongSentence]"
    by (simp add: twoSentences_def)
  then show ?thesis
    by (simp add: splitIntoSentences_def trim_longSentence trim_overlongSentence
        longSentence_neq_Nil overlongSentence_neq_Nil)
qed

lemma len_overlongSentence: "len overlongSentence = 1600"
  by (simp add: len_def length_overlongSentence)

lemma sentenceStep_overlong:
  "sentenceStep 1200 800 1500 overlongSentence ([], longSentence) =
     ([longSentence, overlongSentence], overlongSentence)"
  by (simp add: sentenceStep_def len_def length_longSentence length_overlongSentence
      longSentence_neq_Nil)

lemma getOverlapText_overlongSentence: "getOverlapText overlongSentence 200 = overlongSentence"
proof -
  have "splitWhitespace [] overlongSentence = [[] @ overlongSentence]"
    by (rule splitWhitespace_word) (simp add: overlongSentence_def is_space_def)
  then show ?thesis
    by (simp add: getOverlapText_def overlongSentence_neq_Nil)
qed

lemma upt_three: "[0 ..< 3] = [0, 1, 2]"
  by code_simp

lemma chunkText_twoSentences:
  "chunkText twoSentences 1200 200 800 1500 =
     [longSentence, longSentence @ '' '' @ overlongSentence,
      overlongSentence @ '' '' @ overlongSentence]"
proof -
  have l: "\<not> len twoSentences \<le> 1200"
    by (simp add: len_def twoSentences_def length_longSentence length_overlongSentence)
  have s: "fold (sentenceStep 1200 800 1500) [longSentence, overlongSentence] ([], []) =
     ([longSentence, overlongSentence], overlongSentence)"
    by (simp add: sentenceStep_def len_def length_longSentence length_overlongSentence
        longSentence_neq_Nil)
  have f: "flush 800 ([longSentence, overlongSentence], overlongSentence) =
    [longSentence, overlongSentence, overlongSentence]"
    by (simp add: flush_def len_overlongSentence)
  have o: "addOverlap [longSentence, overlongSentence, overlongSentence] 200 =
     [longSentence, longSentence @ '' '' @ overlongSentence,
      overlongSentence @ '' '' @ overlongSentence]"
    by (simp add: addOverlap_def upt_three getOverlapText_longSentence
        getOverlapText_overlongSentence longSentence_neq_Nil overlongSentence_neq_Nil)
  have m: "mergeSmallChunks
     [longSentence, longSentence @ '' '' @ overlongSentence,
      overlongSentence @ '' '' @ overlongSentence] 800 =
     [longSentence, longSentence @ '' '' @ overlongSentence,
      overlongSentence @ '' '' @ overlongSentence]"
    by (simp add: mergeSmallChunks_emit mergeSmallChunks_single len_def length_longSentence
        length_overlongSentence)
  show ?thesis
    using l
    by (simp only: chunkText_def Let_def if_False splitIntoSentences_twoSentences s f o m)
qed

text \<open>
  C3. With \<open>targetSize = 5\<close>, \<open>minSize = 3\<close>, \<open>maxSize = 10\<close> the buffer \<open>aaaa.\<close> meets
  \<open>minSize\<close>, and appending the sentence of 13 characters would exceed \<open>maxSize\<close>. The round
  emits the buffer and restarts it with the sentence; the check against \<open>maxSize\<close> that
  follows then emits the restarted buffer, which is the sentence, and keeps the sentence
  in the buffer. The sentence is a chunk and is still in the buffer, and the flush emits
  it a second time. The same happens with the parameters of the indexer (1200, 200, 800,
  1500) for a buffer of 1000 characters followed by a sentence of 1600 characters: the
  sentence is emitted and stays in the buffer, and the text gives three chunks, the last
  one the sentence again behind its overlap.
\<close>

theorem chunkText_force_split_repeats_sentence:
  "sentenceStep 5 3 10 ''bbbbbbbbbbbb.'' ([], ''aaaa.'') =
     ([''aaaa.'', ''bbbbbbbbbbbb.''], ''bbbbbbbbbbbb.'') \<and>
   chunkText ''aaaa. bbbbbbbbbbbb.'' 5 0 3 10 =
     [''aaaa.'', ''bbbbbbbbbbbb.'', ''bbbbbbbbbbbb.''] \<and>
   sentenceStep 1200 800 1500 overlongSentence ([], longSentence) =
     ([longSentence, overlongSentence], overlongSentence) \<and>
   chunkText twoSentences 1200 200 800 1500 =
     [longSentence, longSentence @ '' '' @ overlongSentence,
      overlongSentence @ '' '' @ overlongSentence]"
proof -
  have "sentenceStep 5 3 10 ''bbbbbbbbbbbb.'' ([], ''aaaa.'') =
     ([''aaaa.'', ''bbbbbbbbbbbb.''], ''bbbbbbbbbbbb.'')"
    by code_simp
  moreover have "chunkText ''aaaa. bbbbbbbbbbbb.'' 5 0 3 10 =
     [''aaaa.'', ''bbbbbbbbbbbb.'', ''bbbbbbbbbbbb.'']"
    by code_simp
  ultimately show ?thesis
    by (simp only: sentenceStep_overlong chunkText_twoSentences simp_thms)
qed

section \<open>Properties of the embedding decision\<close>

lemma resolveEmbedding_missing_calls:
  "embed_calls (snd (resolveEmbedding e ReembedMissing i c existing w)) = embed_calls w @ [c]"
  by (simp add: resolveEmbedding_def embed_def split: option.splits)

text \<open>
  C1, as the code has it. Mode \<open>all\<close> always calls the provider, with the text of the chunk,
  and takes what it returns. Under the default mode \<open>none\<close> the provider is called exactly
  when no embedding is stored at the position, that is when there is no chunk there or the
  chunk there has a null embedding; a stored embedding is taken over and the provider is
  not called.
\<close>

theorem resolveEmbedding_modes:
  "embed_calls (snd (resolveEmbedding e ReembedAll i c existing w)) = embed_calls w @ [c] \<and>
   fst (resolveEmbedding e ReembedAll i c existing w) = provider e (clock w) c \<and>
   embed_calls (snd (resolveEmbedding e ReembedNone i c existing w)) =
     (if storedEmbedding existing = None then embed_calls w @ [c] else embed_calls w) \<and>
   fst (resolveEmbedding e ReembedNone i c existing w) =
     (if storedEmbedding existing = None then provider e (clock w) c
      else storedEmbedding existing)"
  by (simp add: resolveEmbedding_def embed_def split: option.splits)

text \<open>
  C1 with mode \<open>none\<close> computing only where no chunk exists does not hold: with a chunk
  stored at the position whose embedding is null, the provider is called under \<open>none\<close>.
\<close>

theorem resolveEmbedding_none_null_embedding:
  "embed_calls (snd (resolveEmbedding (sampleEnv [] []) ReembedNone 0 ''text''
      (Some \<lparr>chunk_content = ''text'', chunk_embedding = None\<rparr>) emptyWorld)) = [''text'']"
  by (simp add: resolveEmbedding_def embed_def storedEmbedding_def sampleEnv_def emptyWorld_def)

section \<open>Properties of the row loop\<close>

lemma processChunk_frame:
  "doc_index (snd (processChunk e mode d i c w)) = doc_index w \<and>
   document_upserts (snd (processChunk e mode d i c w)) = document_upserts w \<and>
   next_id (snd (processChunk e mode d i c w)) = next_id w \<and>
   errors (tableStats (snd (processChunk e mode d i c w))) = errors (tableStats w) \<and>
   documentsProcessed (tableStats (snd (processChunk e mode d i c w))) =
     documentsProcessed (tableStats w)"
  by (simp add: processChunk_def getChunk_def upsertChunk_def resolveEmbedding_def embed_def
      Let_def split: option.splits)

lemma processChunks_frame:
  "doc_index (snd (processChunks e mode d i cs w)) = doc_index w \<and>
   document_upserts (snd (processChunks e mode d i cs w)) = document_upserts w \<and>
   next_id (snd (processChunks e mode d i cs w)) = next_id w \<and>
   errors (tableStats (snd (processChunks e mode d i cs w))) = errors (tableStats w) \<and>
   documentsProcessed (tableStats (snd (processChunks e mode d i cs w))) =
     documentsProcessed (tableStats w)"
proof (induction cs arbitrary: i w)
  case Nil
  show ?case by simp
next
  case (Cons c cs)
  obtain res w1 where step: "processChunk e mode d i c w = (res, w1)"
    by (cases "processChunk e mode d i c w")
  have f: "doc_index w1 = doc_index w \<and> document_upserts w1 = document_upserts w \<and>
    next_id w1 = next_id w \<and> errors (tableStats w1) = errors (tableStats w) \<and>
    documentsProcessed (tableStats w1) = documentsProcessed (tableStats w)"
    using processChunk_frame [of e mode d i c w] step by simp
  show ?case
  proof (cases res)
    case (Inl err)
    with step f show ?thesis by simp
  next
    case (Inr u)
    with step f Cons.IH [of "Suc i" w1] show ?thesis by simp
  qed
qed

lemma processRow_errors:
  "errors (tableStats (snd (processRow e mode t r w))) = errors (tableStats w)"
proof (cases "transformRowToDocument t r")
  case (Inl err)
  then show ?thesis by (simp add: processRow_def)
next
  case (Inr sd)
  show ?thesis
  proof (cases "content sd = [] \<or> length (trim (content sd)) = 0")
    case True
    with Inr show ?thesis by (simp add: processRow_def)
  next
    case False
    obtain res1 w1 where g: "getDocumentHash e (source_table sd) (source_id sd) w = (res1, w1)"
      by (cases "getDocumentHash e (source_table sd) (source_id sd) w")
    have w1: "tableStats w1 = tableStats w"
      using g by (auto simp: getDocumentHash_def Let_def split: if_splits)
    obtain res2 w2 where u:
      "upsertDocument e sd (generateContentHash e (content sd)) w1 = (res2, w2)"
      by (cases "upsertDocument e sd (generateContentHash e (content sd)) w1")
    have w2: "tableStats w2 = tableStats w1"
      using u by (auto simp: upsertDocument_def Let_def split: if_splits option.splits)
    show ?thesis
      using Inr False g u w1 w2
      by (cases res1; cases res2) (simp_all add: processRow_def Let_def processChunks_frame)
  qed
qed

lemma processBatch_append:
  "processBatch e mode t (xs @ ys) w = processBatch e mode t ys (processBatch e mode t xs w)"
  by (simp add: processBatch_def)

text \<open>
  C8. When \<open>processRow\<close> raises on a row of a batch, whatever the error and wherever in the
  row it was raised, the loop over the batch catches it: the error is logged, the error
  counter of the table is one more than it was before the row, and the rows after it in
  the batch are processed from that state. The loop over the pages of the table goes on
  after such a batch as after any other: it ends if the page was shorter than the limit
  and reads the next page otherwise.
\<close>

theorem processBatch_isolates_row_failure:
  assumes "processRow e mode t r (processBatch e mode t pre w) = (Inl err, w1)"
    and "counted =
           w1\<lparr>console_errors := console_errors w1 @ [RowFailure err],
              tableStats := (tableStats w1)
                \<lparr>errors := Suc (errors (tableStats (processBatch e mode t pre w)))\<rparr>\<rparr>"
  shows "processBatch e mode t (pre @ r # post) w = processBatch e mode t post counted \<and>
         (fetchTableRows e t limit offset w0 = (Inr (pre @ r # post), w) \<longrightarrow>
          pageLoop (Suc rounds) e mode limit t offset w0 =
            (if int (length (pre @ r # post)) < limit
             then Some (Inr (), processBatch e mode t post counted)
             else pageLoop rounds e mode limit t (offset + int (length (pre @ r # post)))
                    (processBatch e mode t post counted)))"
proof -
  have "errors (tableStats w1) = errors (tableStats (processBatch e mode t pre w))"
    using processRow_errors [of e mode t r "processBatch e mode t pre w"] assms(1) by simp
  then have batch: "processBatch e mode t (pre @ r # post) w = processBatch e mode t post counted"
    using assms by (simp add: processBatch_def rowStep_def)
  show ?thesis
  proof (intro conjI impI)
    show "processBatch e mode t (pre @ r # post) w = processBatch e mode t post counted"
      by (rule batch)
  next
    assume "fetchTableRows e t limit offset w0 = (Inr (pre @ r # post), w)"
    then show "pageLoop (Suc rounds) e mode limit t offset w0 =
            (if int (length (pre @ r # post)) < limit
             then Some (Inr (), processBatch e mode t post counted)
             else pageLoop rounds e mode limit t (offset + int (length (pre @ r # post)))
                    (processBatch e mode t post counted))"
      by (simp add: batch Let_def)
  qed
qed

theorem processBatch_isolates_row_failure_witness:
  "fetchTableRows (sampleEnv [] [1]) ''press_release'' 2 0 emptyWorld =
     (Inr ([] @ sampleRow # [sampleRow]), emptyWorld\<lparr>clock := 1\<rparr>) \<and>
   processRow (sampleEnv [] [1]) ReembedNone ''press_release'' sampleRow
     (processBatch (sampleEnv [] [1]) ReembedNone ''press_release'' [] (emptyWorld\<lparr>clock := 1\<rparr>)) =
     (Inl StoreError, emptyWorld\<lparr>clock := 2\<rparr>) \<and>
   tableStats (processBatch (sampleEnv [] [1]) ReembedNone ''press_release''
     ([] @ sampleRow # [sampleRow]) (emptyWorld\<lparr>clock := 1\<rparr>)) =
     \<lparr>documentsProcessed = 1, chunksCreated = 1, embeddingsWritten = 1, errors = 1\<rparr> \<and>
   map_option (\<lambda>(res, w). (res, tableStats w))
     (pageLoop (Suc 1) (sampleEnv [] [1]) ReembedNone 2 ''press_release'' 0 emptyWorld) =
     Some (Inr (),
           \<lparr>documentsProcessed = 1, chunksCreated = 1, embeddingsWritten = 1, errors = 1\<rparr>)"
proof -
  let ?counted = "(emptyWorld\<lparr>clock := 2\<rparr>)
         \<lparr>console_errors := console_errors (emptyWorld\<lparr>clock := 2\<rparr>) @ [RowFailure StoreError],
          tableStats := (tableStats (emptyWorld\<lparr>clock := 2\<rparr>))
            \<lparr>errors := Suc (errors (tableStats
               (processBatch (sampleEnv [] [1]) ReembedNone ''press_release'' []
                  (emptyWorld\<lparr>clock := 1\<rparr>))))\<rparr>\<rparr>"
  have f: "fetchTableRows (sampleEnv [] [1]) ''press_release'' 2 0 emptyWorld =
     (Inr ([] @ sampleRow # [sampleRow]), emptyWorld\<lparr>clock := 1\<rparr>)"
    by (simp add: fetchTableRows_def TABLE_MAPPERS_def sampleEnv_def emptyWorld_def)
  have h: "processRow (sampleEnv [] [1]) ReembedNone ''press_release'' sampleRow
     (processBatch (sampleEnv [] [1]) ReembedNone ''press_release'' [] (emptyWorld\<lparr>clock := 1\<rparr>)) =
     (Inl StoreError, emptyWorld\<lparr>clock := 2\<rparr>)"
    by (simp add: processBatch_def processRow_def transformRowToDocument_def TABLE_MAPPERS_def
        sampleRow_def trim_def is_space_def getDocumentHash_def sampleEnv_def emptyWorld_def)
  note inst = processBatch_isolates_row_failure [OF h refl, of "[sampleRow]" 2 0 emptyWorld 1]
  from inst have "tableStats (processBatch (sampleEnv [] [1]) ReembedNone ''press_release''
     ([] @ sampleRow # [sampleRow]) (emptyWorld\<lparr>clock := 1\<rparr>)) =
    tableStats (processBatch (sampleEnv [] [1]) ReembedNone ''press_release'' [sampleRow] ?counted)"
    by (simp only:)
  also have "\<dots> = \<lparr>documentsProcessed = 1, chunksCreated = 1, embeddingsWritten = 1, errors = 1\<rparr>"
    by code_simp
  finally have b: "tableStats (processBatch (sampleEnv [] [1]) ReembedNone ''press_release''
     ([] @ sampleRow # [sampleRow]) (emptyWorld\<lparr>clock := 1\<rparr>)) =
     \<lparr>documentsProcessed = 1, chunksCreated = 1, embeddingsWritten = 1, errors = 1\<rparr>" .
  from inst f have "pageLoop (Suc 1) (sampleEnv [] [1]) ReembedNone 2 ''press_release'' 0 emptyWorld =
     pageLoop 1 (sampleEnv [] [1]) ReembedNone 2 ''press_release''
       (0 + int (length ([] @ sampleRow # [sampleRow])))
       (processBatch (sampleEnv [] [1]) ReembedNone ''press_release'' [sampleRow] ?counted)"
    by simp
  also have "map_option (\<lambda>(res, w). (res, tableStats w)) \<dots> =
     Some (Inr (),
           \<lparr>documentsProcessed = 1, chunksCreated = 1, embeddingsWritten = 1, errors = 1\<rparr>)"
    by code_simp
  finally have p: "map_option (\<lambda>(res, w). (res, tableStats w))
     (pageLoop (Suc 1) (sampleEnv [] [1]) ReembedNone 2 ''press_release'' 0 emptyWorld) =
     Some (Inr (),
           \<lparr>documentsProcessed = 1, chunksCreated = 1, embeddingsWritten = 1, errors = 1\<rparr>)" .
  from f h b p show ?thesis by (simp only: simp_thms)
qed

section \<open>Properties of the fingerprint check\<close>

lemma processRow_skip:
  assumes tr: "transformRowToDocument t r = Inr sd"
    and stored: "doc_index w (source_table sd, source_id sd) = Some d"
    and same: "content_hash d = generateContentHash e (content sd)"
    and digest: "generateContentHash e (content sd) \<noteq> []"
    and nofault: "\<not> store_fault e (clock w)"
  shows "processRow e ReembedNone t r w =
           (Inr (), if trim (content sd) = [] then w else w\<lparr>clock := Suc (clock w)\<rparr>)"
proof (cases "trim (content sd) = []")
  case True
  with tr show ?thesis by (simp add: processRow_def)
next
  case False
  then have ne: "content sd \<noteq> []" by (auto simp: trim_def)
  have "getDocumentHash e (source_table sd) (source_id sd) w =
          (Inr (Some (generateContentHash e (content sd))), w\<lparr>clock := Suc (clock w)\<rparr>)"
    using stored same digest nofault by (simp add: getDocumentHash_def)
  with tr False ne show ?thesis by (simp add: processRow_def)
qed

lemma upsertDocument_stores_hash:
  "upsertDocument e sd h w = (Inr docId, w2) \<Longrightarrow>
   \<exists>d. doc_index w2 (source_table sd, source_id sd) = Some d \<and> content_hash d = h"
  by (auto simp: upsertDocument_def Let_def split: if_splits option.splits)

lemma getDocumentHash_Some:
  "getDocumentHash e st sid w = (Inr (Some h), w1) \<Longrightarrow>
   \<exists>d. doc_index w1 (st, sid) = Some d \<and> content_hash d = h"
  by (auto simp: getDocumentHash_def Let_def split: if_splits option.splits)

lemma processRow_ok_stores_hash:
  assumes run: "processRow e mode t r w = (Inr (), w1)"
    and tr: "transformRowToDocument t r = Inr sd"
    and nonblank: "trim (content sd) \<noteq> []"
  shows "\<exists>d. doc_index w1 (source_table sd, source_id sd) = Some d \<and>
             content_hash d = generateContentHash e (content sd)"
proof -
  define h where "h = generateContentHash e (content sd)"
  from nonblank have ne: "content sd \<noteq> []" by (auto simp: trim_def)
  obtain res1 wa where g: "getDocumentHash e (source_table sd) (source_id sd) w = (res1, wa)"
    by (cases "getDocumentHash e (source_table sd) (source_id sd) w")
  show ?thesis
  proof (cases res1)
    case (Inl err)
    with run tr nonblank ne g show ?thesis by (simp add: processRow_def)
  next
    case (Inr existingHash)
    show ?thesis
    proof (cases "existingHash = Some h \<and> mode = ReembedNone")
      case True
      with run tr nonblank ne g Inr have "w1 = wa"
        by (simp add: processRow_def h_def)
      with g Inr True getDocumentHash_Some [of e "source_table sd" "source_id sd" w h wa]
      show ?thesis by (simp add: h_def)
    next
      case False
      obtain res2 wb where u: "upsertDocument e sd h wa = (res2, wb)"
        by (cases "upsertDocument e sd h wa")
      show ?thesis
      proof (cases res2)
        case (Inl err)
        with run tr nonblank ne g Inr False u show ?thesis
          by (auto simp: processRow_def h_def)
      next
        case (Inr docId)
        from g \<open>res1 = Inr existingHash\<close> False u Inr run tr nonblank ne
        have "w1 = snd (processChunks e mode docId 0 (chunkText (content sd) 1200 200 800 1500)
              (wb\<lparr>tableStats := (tableStats wb)
                   \<lparr>documentsProcessed := Suc (documentsProcessed (tableStats wb))\<rparr>\<rparr>))"
          by (auto simp: processRow_def h_def)
        then have "doc_index w1 = doc_index wb"
          by (simp add: processChunks_frame)
        with upsertDocument_stores_hash [of e sd h wa docId wb] u Inr show ?thesis
          by (simp add: h_def)
      qed
    qed
  qed
qed

text \<open>
  C4. Let the row transform to the document \<open>sd\<close>, whose digest is not the empty string (a
  SHA-256 digest in hexadecimal has 64 characters). With mode \<open>none\<close>: if the fingerprint
  stored for the source table and source id of \<open>sd\<close> is the digest of its content and the
  read of the fingerprint succeeds, \<open>processRow\<close> returns normally and the state is the one
  before but for the tick of that read (or the very same state, for a content that is blank):
  the store, the statistics, the texts sent to the provider and the numbers of upserts are
  as before. This is the case in a second run: after any run of \<open>processRow\<close> over the row
  that returned normally, a run with mode \<open>none\<close> over the same row changes nothing.
\<close>

theorem processRow_unchanged_is_skipped:
  assumes tr: "transformRowToDocument t r = Inr sd"
    and digest: "generateContentHash e (content sd) \<noteq> []"
  shows "(doc_index w (source_table sd, source_id sd) = Some d \<and>
          content_hash d = generateContentHash e (content sd) \<and>
          \<not> store_fault e (clock w) \<longrightarrow>
          processRow e ReembedNone t r w =
            (Inr (), if trim (content sd) = [] then w else w\<lparr>clock := Suc (clock w)\<rparr>)) \<and>
         (processRow e mode t r w = (Inr (), wa) \<and> \<not> store_fault e (clock wa) \<longrightarrow>
          processRow e ReembedNone t r wa =
            (Inr (), if trim (content sd) = [] then wa else wa\<lparr>clock := Suc (clock wa)\<rparr>))"
proof (intro conjI impI)
  assume "doc_index w (source_table sd, source_id sd) = Some d \<and>
          content_hash d = generateContentHash e (content sd) \<and> \<not> store_fault e (clock w)"
  then show "processRow e ReembedNone t r w =
            (Inr (), if trim (content sd) = [] then w else w\<lparr>clock := Suc (clock w)\<rparr>)"
    using processRow_skip [OF tr _ _ digest] by blast
next
  assume a: "processRow e mode t r w = (Inr (), wa) \<and> \<not> store_fault e (clock wa)"
  show "processRow e ReembedNone t r wa =
            (Inr (), if trim (content sd) = [] then wa else wa\<lparr>clock := Suc (clock wa)\<rparr>)"
  proof (cases "trim (content sd) = []")
    case True
    with tr show ?thesis by (simp add: processRow_def)
  next
    case False
    from processRow_ok_stores_hash [OF _ tr False] a
    obtain d' where "doc_index wa (source_table sd, source_id sd) = Some d'"
      and "content_hash d' = generateContentHash e (content sd)" by blast
    with a show ?thesis using processRow_skip [OF tr _ _ digest] by blast
  qed
qed

theorem processRow_unchanged_is_skipped_witness:
  "transformRowToDocument ''press_release'' sampleRow = Inr sampleDoc \<and>
   generateContentHash (sampleEnv [] []) (content sampleDoc) \<noteq> [] \<and>
   processRow (sampleEnv [] []) ReembedAll ''press_release'' sampleRow emptyWorld =
     (Inr (), sampleIndexed) \<and>
   \<not> store_fault (sampleEnv [] []) (clock sampleIndexed) \<and>
   doc_index sampleIndexed (source_table sampleDoc, source_id sampleDoc) =
     Some \<lparr>doc_id = 0, doc_title = None, doc_content = ''Hello world.'',
            content_hash = ''#Hello world.''\<rparr> \<and>
   processRow (sampleEnv [] []) ReembedNone ''press_release'' sampleRow sampleIndexed =
     (Inr (), sampleIndexed\<lparr>clock := Suc (clock sampleIndexed)\<rparr>)"
proof -
  have tr: "transformRowToDocument ''press_release'' sampleRow = Inr sampleDoc"
    by (simp add: transformRowToDocument_def TABLE_MAPPERS_def sampleRow_def sampleDoc_def)
  have dg: "generateContentHash (sampleEnv [] []) (content sampleDoc) \<noteq> []"
    by (simp add: generateContentHash_def sampleEnv_def)
  have "fst (processRow (sampleEnv [] []) ReembedAll ''press_release'' sampleRow emptyWorld) =
    Inr ()"
    by code_simp
  then have run: "processRow (sampleEnv [] []) ReembedAll ''press_release'' sampleRow emptyWorld =
     (Inr (), sampleIndexed)"
    by (simp add: sampleIndexed_def prod_eq_iff)
  have nf: "\<not> store_fault (sampleEnv [] []) (clock sampleIndexed)"
    by (simp add: sampleEnv_def)
  have st: "doc_index sampleIndexed (source_table sampleDoc, source_id sampleDoc) =
     Some \<lparr>doc_id = 0, doc_title = None, doc_content = ''Hello world.'',
            content_hash = ''#Hello world.''\<rparr>"
    by code_simp
  have hs: "content_hash \<lparr>doc_id = 0, doc_title = None, doc_content = ''Hello world.'',
            content_hash = ''#Hello world.''\<rparr> =
        generateContentHash (sampleEnv [] []) (content sampleDoc)"
    by (simp add: generateContentHash_def sampleEnv_def sampleDoc_def)
  have nb: "trim (content sampleDoc) \<noteq> []"
    by (simp add: sampleDoc_def trim_def is_space_def)
  note inst = processRow_unchanged_is_skipped [OF tr dg]
  have first: "processRow (sampleEnv [] []) ReembedNone ''press_release'' sampleRow sampleIndexed =
     (Inr (), sampleIndexed\<lparr>clock := Suc (clock sampleIndexed)\<rparr>)"
    using inst [where w = sampleIndexed and d = "\<lparr>doc_id = 0, doc_title = None,
        doc_content = ''Hello world.'', content_hash = ''#Hello world.''\<rparr>", THEN conjunct1]
      st hs nf nb by simp
  have second: "processRow (sampleEnv [] []) ReembedNone ''press_release'' sampleRow sampleIndexed =
     (Inr (), sampleIndexed\<lparr>clock := Suc (clock sampleIndexed)\<rparr>)"
    using inst [where w = emptyWorld and mode = ReembedAll and wa = sampleIndexed,
        THEN conjunct2] run nf nb
    by simp
  from tr dg run nf st first second show ?thesis by simp
qed

section \<open>Properties of the loop over the chunks\<close>

lemma resolveEmbedding_effect:
  "resolveEmbedding e mode i c ex w = (emb, w2) \<Longrightarrow>
   clock w \<le> clock w2 \<and> chunk_index w2 = chunk_index w \<and>
   chunk_upserts w2 = chunk_upserts w \<and>
   (\<exists>new. console_errors w2 = console_errors w @ new \<and>
          (new = [] \<or> new = [EmbeddingFailure i] \<and> emb = None))"
  by (auto simp: resolveEmbedding_def embed_def split: if_splits option.splits)

lemma processChunk_no_fault:
  assumes nf: "\<forall>k\<ge>clock w. \<not> store_fault e k"
  shows "fst (processChunk e mode d i c w) = Inr () \<and>
         clock w \<le> clock (snd (processChunk e mode d i c w)) \<and>
         chunk_upserts (snd (processChunk e mode d i c w)) = Suc (chunk_upserts w) \<and>
         (\<exists>emb new.
            chunk_index (snd (processChunk e mode d i c w)) =
              (chunk_index w)((d, i) \<mapsto> \<lparr>chunk_content = c, chunk_embedding = emb\<rparr>) \<and>
            console_errors (snd (processChunk e mode d i c w)) = console_errors w @ new \<and>
            (new = [] \<or> new = [EmbeddingFailure i] \<and> emb = None))"
proof -
  have g: "getChunk e d i w = (Inr (chunk_index w (d, i)), w\<lparr>clock := Suc (clock w)\<rparr>)"
    using nf by (simp add: getChunk_def)
  obtain emb w2 where
    r: "resolveEmbedding e mode i c (chunk_index w (d, i)) (w\<lparr>clock := Suc (clock w)\<rparr>) = (emb, w2)"
    by (cases "resolveEmbedding e mode i c (chunk_index w (d, i)) (w\<lparr>clock := Suc (clock w)\<rparr>)")
  from resolveEmbedding_effect [OF r] obtain new where
    c2: "Suc (clock w) \<le> clock w2" and ci: "chunk_index w2 = chunk_index w"
    and cu: "chunk_upserts w2 = chunk_upserts w"
    and lg: "console_errors w2 = console_errors w @ new"
    and nw: "new = [] \<or> new = [EmbeddingFailure i] \<and> emb = None"
    by auto
  from c2 nf have "\<not> store_fault e (clock w2)" by simp
  then have u: "upsertChunk e d i c emb w2 =
    (Inr (), w2\<lparr>clock := Suc (clock w2), chunk_upserts := Suc (chunk_upserts w2),
               chunk_index := (chunk_index w2)((d, i) \<mapsto>
                  \<lparr>chunk_content = c, chunk_embedding = emb\<rparr>)\<rparr>)"
    by (simp add: upsertChunk_def)
  have p: "processChunk e mode d i c w =
    (Inr (), w2\<lparr>clock := Suc (clock w2), chunk_upserts := Suc (chunk_upserts w2),
               chunk_index := (chunk_index w2)((d, i) \<mapsto>
                  \<lparr>chunk_content = c, chunk_embedding = emb\<rparr>),
               tableStats := (tableStats w2)
                  \<lparr>chunksCreated := Suc (chunksCreated (tableStats w2))\<rparr>\<rparr>)"
    by (simp add: processChunk_def g r u)
  show ?thesis
    using c2 ci cu lg nw by (auto simp: p)
qed

lemma processChunks_no_fault:
  assumes nf: "\<forall>k\<ge>clock w. \<not> store_fault e k"
  shows "fst (processChunks e mode d i0 cs w) = Inr () \<and>
         chunk_upserts (snd (processChunks e mode d i0 cs w)) = chunk_upserts w + length cs \<and>
         (\<forall>j<i0. chunk_index (snd (processChunks e mode d i0 cs w)) (d, j) = chunk_index w (d, j)) \<and>
         (\<exists>new. console_errors (snd (processChunks e mode d i0 cs w)) = console_errors w @ new \<and>
            (\<forall>x\<in>set new. \<exists>j\<ge>i0. x = EmbeddingFailure j) \<and>
            (\<forall>j<length cs. \<exists>ch.
               chunk_index (snd (processChunks e mode d i0 cs w)) (d, i0 + j) = Some ch \<and>
               chunk_content ch = cs ! j \<and>
               (EmbeddingFailure (i0 + j) \<in> set new \<longrightarrow> chunk_embedding ch = None)))"
  using nf
proof (induction cs arbitrary: i0 w)
  case Nil
  show ?case by simp
next
  case (Cons c cs)
  obtain w1 where step: "processChunk e mode d i0 c w = (Inr (), w1)"
    using processChunk_no_fault [OF Cons.prems, of mode d i0 c]
    by (cases "processChunk e mode d i0 c w") auto
  from processChunk_no_fault [OF Cons.prems, of mode d i0 c] step obtain emb new1 where
    ck: "clock w \<le> clock w1" and cu: "chunk_upserts w1 = Suc (chunk_upserts w)"
    and ci: "chunk_index w1 = (chunk_index w)((d, i0) \<mapsto> \<lparr>chunk_content = c, chunk_embedding = emb\<rparr>)"
    and lg: "console_errors w1 = console_errors w @ new1"
    and nw: "new1 = [] \<or> new1 = [EmbeddingFailure i0] \<and> emb = None"
    by auto
  from ck Cons.prems have nf1: "\<forall>k\<ge>clock w1. \<not> store_fault e k" by simp
  let ?R = "processChunks e mode d (Suc i0) cs w1"
  from Cons.IH [OF nf1, of "Suc i0"] obtain new2 where
    ok: "fst ?R = Inr ()" and up: "chunk_upserts (snd ?R) = chunk_upserts w1 + length cs"
    and old: "\<forall>j<Suc i0. chunk_index (snd ?R) (d, j) = chunk_index w1 (d, j)"
    and lg2: "console_errors (snd ?R) = console_errors w1 @ new2"
    and idx: "\<forall>x\<in>set new2. \<exists>j\<ge>Suc i0. x = EmbeddingFailure j"
    and rest: "\<forall>j<length cs. \<exists>ch. chunk_index (snd ?R) (d, Suc i0 + j) = Some ch \<and>
               chunk_content ch = cs ! j \<and>
               (EmbeddingFailure (Suc i0 + j) \<in> set new2 \<longrightarrow> chunk_embedding ch = None)"
    by blast
  have eq: "processChunks e mode d i0 (c # cs) w = ?R"
    by (simp add: step)
  have not2: "EmbeddingFailure i0 \<notin> set new2"
    using idx by auto
  have a: "fst ?R = Inr ()" by (rule ok)
  have b: "chunk_upserts (snd ?R) = chunk_upserts w + length (c # cs)"
    using up cu by simp
  have c': "\<forall>j<i0. chunk_index (snd ?R) (d, j) = chunk_index w (d, j)"
    using old ci by simp
  have l: "console_errors (snd ?R) = console_errors w @ (new1 @ new2)"
    using lg lg2 by simp
  have i: "\<forall>x\<in>set (new1 @ new2). \<exists>j\<ge>i0. x = EmbeddingFailure j"
    using nw idx by (auto intro: Suc_leD)
  have r: "\<forall>j<length (c # cs). \<exists>ch. chunk_index (snd ?R) (d, i0 + j) = Some ch \<and>
               chunk_content ch = (c # cs) ! j \<and>
               (EmbeddingFailure (i0 + j) \<in> set (new1 @ new2) \<longrightarrow> chunk_embedding ch = None)"
  proof (intro allI impI)
    fix j assume j: "j < length (c # cs)"
    show "\<exists>ch. chunk_index (snd ?R) (d, i0 + j) = Some ch \<and>
               chunk_content ch = (c # cs) ! j \<and>
               (EmbeddingFailure (i0 + j) \<in> set (new1 @ new2) \<longrightarrow> chunk_embedding ch = None)"
    proof (cases j)
      case 0
      have "chunk_index (snd ?R) (d, i0) = Some \<lparr>chunk_content = c, chunk_embedding = emb\<rparr>"
        using old ci by simp
      moreover have "EmbeddingFailure i0 \<in> set (new1 @ new2) \<longrightarrow> emb = None"
        using nw not2 by auto
      ultimately show ?thesis using 0 by simp
    next
      case (Suc j')
      with j have "j' < length cs" by simp
      with rest obtain ch where
        "chunk_index (snd ?R) (d, Suc i0 + j') = Some ch" "chunk_content ch = cs ! j'"
        "EmbeddingFailure (Suc i0 + j') \<in> set new2 \<longrightarrow> chunk_embedding ch = None"
        by blast
      moreover have "EmbeddingFailure (Suc i0 + j') \<notin> set new1"
        using nw by auto
      ultimately show ?thesis using Suc by auto
    qed
  qed
  show ?case
    unfolding eq using a b c' l i r by blast
qed

text \<open>
  C2, as the code has it. When the provider is called for a chunk and throws, the failure
  is logged with the index of the chunk, the embedding of the chunk is null, and the
  statistics stay as they are: no error is counted. For the row: let it transform to a
  document with a content that is not blank, let it not be skipped by the fingerprint
  check, and let no call to the store fail. Then \<open>processRow\<close> returns normally; every
  chunk of the document is upserted, with its text, under the id of the document and its
  index, so there are as many chunk upserts as chunks; a chunk for which the failure of the
  provider was logged is stored with a null embedding; and the error counter of the
  statistics is what it was before the row.
\<close>

theorem processRow_provider_failure:
  assumes nf: "\<forall>k\<ge>clock w. \<not> store_fault e k"
    and tr: "transformRowToDocument t r = Inr sd"
    and nonblank: "trim (content sd) \<noteq> []"
    and changed: "\<not> (fst (getDocumentHash e (source_table sd) (source_id sd) w) =
                       Inr (Some (generateContentHash e (content sd))) \<and> mode = ReembedNone)"
    and chunks: "chunks = chunkText (content sd) 1200 200 800 1500"
    and documentId: "documentId =
       (case doc_index w (source_table sd, source_id sd) of
          Some d \<Rightarrow> doc_id d | None \<Rightarrow> next_id w)"
    and w': "w' = snd (processRow e mode t r w)"
  shows "(provider e (clock wc) c = None \<and>
          (mode = ReembedAll \<or> mode = ReembedMissing \<or> storedEmbedding existing = None) \<longrightarrow>
          resolveEmbedding e mode i c existing wc =
            (None, wc\<lparr>clock := Suc (clock wc), embed_calls := embed_calls wc @ [c],
                      console_errors := console_errors wc @ [EmbeddingFailure i]\<rparr>)) \<and>
         fst (processRow e mode t r w) = Inr () \<and>
         chunk_upserts w' = chunk_upserts w + length chunks \<and>
         errors (tableStats w') = errors (tableStats w) \<and>
         (\<forall>j<length chunks. \<exists>ch.
            chunk_index w' (documentId, j) = Some ch \<and>
            chunk_content ch = chunks ! j \<and>
            (EmbeddingFailure j \<in> set (drop (length (console_errors w)) (console_errors w')) \<longrightarrow>
             chunk_embedding ch = None))"
proof -
  define h where "h = generateContentHash e (content sd)"
  from nonblank have ne: "content sd \<noteq> []" by (auto simp: trim_def)
  from nf have f0: "\<not> store_fault e (clock w)" and f1: "\<not> store_fault e (Suc (clock w))"
    by simp_all
  obtain existingHash where
    g: "getDocumentHash e (source_table sd) (source_id sd) w =
          (Inr existingHash, w\<lparr>clock := Suc (clock w)\<rparr>)"
    using f0 by (simp add: getDocumentHash_def)
  from changed g have noskip: "\<not> (existingHash = Some h \<and> mode = ReembedNone)"
    by (simp add: h_def)
  obtain w2 where
    u: "upsertDocument e sd h (w\<lparr>clock := Suc (clock w)\<rparr>) = (Inr documentId, w2)"
    and c2: "clock w2 = Suc (Suc (clock w))" and ci2: "chunk_index w2 = chunk_index w"
    and cu2: "chunk_upserts w2 = chunk_upserts w" and lg2: "console_errors w2 = console_errors w"
    using f1 documentId
    by (simp add: upsertDocument_def Let_def split: option.splits)
  define w3 where "w3 = w2\<lparr>tableStats := (tableStats w2)
      \<lparr>documentsProcessed := Suc (documentsProcessed (tableStats w2))\<rparr>\<rparr>"
  have run: "processRow e mode t r w = processChunks e mode documentId 0 chunks w3"
    using tr nonblank ne g noskip u
    by (auto simp: processRow_def h_def [symmetric] chunks w3_def)
  have nf3: "\<forall>k\<ge>clock w3. \<not> store_fault e k"
    using nf c2 by (simp add: w3_def)
  from processChunks_no_fault [OF nf3, of mode documentId 0 chunks] obtain new where
    ok: "fst (processChunks e mode documentId 0 chunks w3) = Inr ()"
    and up: "chunk_upserts (snd (processChunks e mode documentId 0 chunks w3)) =
             chunk_upserts w3 + length chunks"
    and lg: "console_errors (snd (processChunks e mode documentId 0 chunks w3)) =
             console_errors w3 @ new"
    and each: "\<forall>j<length chunks. \<exists>ch.
               chunk_index (snd (processChunks e mode documentId 0 chunks w3)) (documentId, 0 + j) =
                 Some ch \<and>
               chunk_content ch = chunks ! j \<and>
               (EmbeddingFailure (0 + j) \<in> set new \<longrightarrow> chunk_embedding ch = None)"
    by blast
  have new: "drop (length (console_errors w)) (console_errors w') = new"
    using lg lg2 by (simp add: w' run w3_def)
  have "provider e (clock wc) c = None \<and>
          (mode = ReembedAll \<or> mode = ReembedMissing \<or> storedEmbedding existing = None) \<longrightarrow>
          resolveEmbedding e mode i c existing wc =
            (None, wc\<lparr>clock := Suc (clock wc), embed_calls := embed_calls wc @ [c],
                      console_errors := console_errors wc @ [EmbeddingFailure i]\<rparr>)"
    by (auto simp: resolveEmbedding_def embed_def)
  moreover have "fst (processRow e mode t r w) = Inr ()"
    using ok by (simp add: run)
  moreover have "chunk_upserts w' = chunk_upserts w + length chunks"
    using up cu2 by (simp add: w' run w3_def)
  moreover have "errors (tableStats w') = errors (tableStats w)"
    by (simp add: w' processRow_errors)
  moreover have "\<forall>j<length chunks. \<exists>ch.
            chunk_index w' (documentId, j) = Some ch \<and>
            chunk_content ch = chunks ! j \<and>
            (EmbeddingFailure j \<in> set (drop (length (console_errors w)) (console_errors w')) \<longrightarrow>
             chunk_embedding ch = None)"
    using each unfolding new by (simp add: w' run)
  ultimately show ?thesis by blast
qed

lemma fiveSentences_neq_Nil: "fiveSentences \<noteq> []"
  by (simp add: fiveSentences_def longSentence_neq_Nil)

lemma trim_fiveSentences: "trim fiveSentences = fiveSentences"
proof (rule trim_id)
  show "fiveSentences \<noteq> []" by (rule fiveSentences_neq_Nil)
  show "\<not> is_space (hd fiveSentences)"
    by (simp add: fiveSentences_def hd_longSentence_append is_space_def)
  show "\<not> is_space (last fiveSentences)"
    by (simp add: fiveSentences_def longSentence_neq_Nil last_longSentence is_space_def)
qed

lemma transform_longRow: "transformRowToDocument ''press_release'' longRow = Inr longDoc"
  by (simp add: transformRowToDocument_def TABLE_MAPPERS_def longRow_def longDoc_def
      fiveSentences_neq_Nil)

lemma longRun_run:
  "processRow (sampleEnv [9] []) ReembedNone ''press_release'' longRow emptyWorld =
     (Inr (),
      \<lparr> clock = 17,
        doc_index = [(''press_release'', ''7'') \<mapsto>
           \<lparr>doc_id = 0, doc_title = None, doc_content = fiveSentences,
            content_hash = CHR ''#'' # fiveSentences\<rparr>],
        chunk_index =
          [(0, 0) \<mapsto> \<lparr>chunk_content = longSentence, chunk_embedding = Some [1]\<rparr>,
           (0, 1) \<mapsto> \<lparr>chunk_content = longSentence @ '' '' @ longSentence,
                       chunk_embedding = Some [1]\<rparr>,
           (0, 2) \<mapsto> \<lparr>chunk_content = longSentence @ '' '' @ longSentence,
                       chunk_embedding = None\<rparr>,
           (0, 3) \<mapsto> \<lparr>chunk_content = longSentence @ '' '' @ longSentence,
                       chunk_embedding = Some [1]\<rparr>,
           (0, 4) \<mapsto> \<lparr>chunk_content = longSentence @ '' '' @ longSentence,
                       chunk_embedding = Some [1]\<rparr>],
        next_id = 1,
        tableStats = \<lparr>documentsProcessed = 1, chunksCreated = 5, embeddingsWritten = 4,
                      errors = 0\<rparr>,
        embed_calls = [longSentence, longSentence @ '' '' @ longSentence,
                       longSentence @ '' '' @ longSentence, longSentence @ '' '' @ longSentence,
                       longSentence @ '' '' @ longSentence],
        document_upserts = 1, chunk_upserts = 5,
        console_errors = [EmbeddingFailure 2] \<rparr>)"
  by (simp add: processRow_def transform_longRow longDoc_def trim_fiveSentences
      fiveSentences_neq_Nil chunkText_fiveSentences generateContentHash_def getDocumentHash_def
      upsertDocument_def processChunk_def getChunk_def resolveEmbedding_def storedEmbedding_def
      embed_def upsertChunk_def sampleEnv_def emptyWorld_def eval_nat_numeral)

text \<open>
  C2 with the failure counted as an error does not hold. The text of \<open>longRow\<close> gives five
  chunks; the provider throws for the third and for no other. The run returns normally,
  there are five chunk upserts, the third chunk is stored with a null embedding and the
  failure is logged, but the error counter of the statistics is 0, not 1.
\<close>

theorem processRow_provider_failure_not_counted:
  "length (chunkText fiveSentences 1200 200 800 1500) = 5 \<and>
   fst (processRow (sampleEnv [9] []) ReembedNone ''press_release'' longRow emptyWorld) = Inr () \<and>
   chunk_upserts longRun = 5 \<and>
   length (embed_calls longRun) = 5 \<and>
   console_errors longRun = [EmbeddingFailure 2] \<and>
   chunk_index longRun (0, 2) =
     Some \<lparr>chunk_content = longSentence @ '' '' @ longSentence, chunk_embedding = None\<rparr> \<and>
   tableStats longRun =
     \<lparr>documentsProcessed = 1, chunksCreated = 5, embeddingsWritten = 4, errors = 0\<rparr>"
  by (simp add: chunkText_fiveSentences longRun_def longRun_run)

theorem processRow_provider_failure_witness:
  "resolveEmbedding (sampleEnv [9] []) ReembedNone 2 (longSentence @ '' '' @ longSentence) None
     (emptyWorld\<lparr>clock := 9\<rparr>) =
     (None, emptyWorld\<lparr>clock := 10, embed_calls := [longSentence @ '' '' @ longSentence],
                       console_errors := [EmbeddingFailure 2]\<rparr>) \<and>
   fst (processRow (sampleEnv [9] []) ReembedNone ''press_release'' longRow emptyWorld) = Inr () \<and>
   chunk_upserts longRun = 5 \<and>
   errors (tableStats longRun) = 0 \<and>
   EmbeddingFailure 2 \<in> set (console_errors longRun) \<and>
   (\<exists>ch. chunk_index longRun (0, 2) = Some ch \<and>
         chunk_content ch = longSentence @ '' '' @ longSentence \<and>
         chunk_embedding ch = None)"
proof -
  let ?chunks = "[longSentence, longSentence @ '' '' @ longSentence,
      longSentence @ '' '' @ longSentence, longSentence @ '' '' @ longSentence,
      longSentence @ '' '' @ longSentence]"
  have nf: "\<forall>k\<ge>clock emptyWorld. \<not> store_fault (sampleEnv [9] []) k"
    by (simp add: sampleEnv_def)
  have nb: "trim (content longDoc) \<noteq> []"
    by (simp add: longDoc_def trim_fiveSentences fiveSentences_neq_Nil)
  have ch: "\<not> (fst (getDocumentHash (sampleEnv [9] []) (source_table longDoc) (source_id longDoc)
                  emptyWorld) =
              Inr (Some (generateContentHash (sampleEnv [9] []) (content longDoc))) \<and>
              ReembedNone = ReembedNone)"
    by (simp add: getDocumentHash_def sampleEnv_def emptyWorld_def)
  have cs: "?chunks = chunkText (content longDoc) 1200 200 800 1500"
    by (simp add: longDoc_def chunkText_fiveSentences)
  have di: "(0::nat) = (case doc_index emptyWorld (source_table longDoc, source_id longDoc) of
                     Some d \<Rightarrow> doc_id d | None \<Rightarrow> next_id emptyWorld)"
    by (simp add: emptyWorld_def)
  have lr: "longRun =
    snd (processRow (sampleEnv [9] []) ReembedNone ''press_release'' longRow emptyWorld)"
    by (simp add: longRun_def)
  note inst = processRow_provider_failure [OF nf transform_longRow nb ch cs di lr,
      where wc = "emptyWorld\<lparr>clock := 9\<rparr>" and c = "longSentence @ '' '' @ longSentence"
        and existing = None and i = 2]
  have pv: "provider (sampleEnv [9] []) (clock (emptyWorld\<lparr>clock := 9\<rparr>))
      (longSentence @ '' '' @ longSentence) = None"
    by (simp add: sampleEnv_def)
  have se: "storedEmbedding None = None"
    by (simp add: storedEmbedding_def)
  from inst pv se have step:
    "resolveEmbedding (sampleEnv [9] []) ReembedNone 2 (longSentence @ '' '' @ longSentence) None
       (emptyWorld\<lparr>clock := 9\<rparr>) =
     (None, emptyWorld\<lparr>clock := 10, embed_calls := [longSentence @ '' '' @ longSentence],
                       console_errors := [EmbeddingFailure 2]\<rparr>)"
    by (simp add: emptyWorld_def)
  have logged: "EmbeddingFailure 2 \<in> set (console_errors longRun)"
    by (simp add: longRun_def longRun_run)
  from inst have each: "\<forall>j<length ?chunks. \<exists>ch.
      chunk_index longRun (0, j) = Some ch \<and> chunk_content ch = ?chunks ! j \<and>
      (EmbeddingFailure j \<in> set (drop (length (console_errors emptyWorld)) (console_errors longRun))
        \<longrightarrow> chunk_embedding ch = None)"
    by blast
  have "2 < length ?chunks" by simp
  with each have "\<exists>ch. chunk_index longRun (0, 2) = Some ch \<and> chunk_content ch = ?chunks ! 2 \<and>
      (EmbeddingFailure 2 \<in> set (drop (length (console_errors emptyWorld)) (console_errors longRun))
        \<longrightarrow> chunk_embedding ch = None)"
    by blast
  with logged have stored: "\<exists>ch. chunk_index longRun (0, 2) = Some ch \<and>
         chunk_content ch = longSentence @ '' '' @ longSentence \<and> chunk_embedding ch = None"
    by (simp add: emptyWorld_def)
  from inst have "fst (processRow (sampleEnv [9] []) ReembedNone ''press_release'' longRow
      emptyWorld) = Inr ()"
    and "chunk_upserts longRun = chunk_upserts emptyWorld + length ?chunks"
    and "errors (tableStats longRun) = errors (tableStats emptyWorld)"
    by simp_all
  with step logged stored show ?thesis
    by (simp add: emptyWorld_def)
qed

end
